theory Spec2Isabelle
  imports Complex_Main
begin

section \<open>Discretisation of a renewal-type integral equation\<close>

text \<open>
  The notebook \<^verbatim>\<open>Discretisation_of_integral_equations.ipynb\<close> discretises
  \<open>f(t) = h(t) + \<integral> f(t - u) \<lambda>(u) du\<close> on a uniform grid with two algorithms: a double
  loop over a triangular array (Algorithm 1) and a single loop over the columns of an
  array, each column computed by one bulk reduction (Algorithm 2).

  Floating-point numbers are embedded as \<^typ>\<open>real\<close> (exact arithmetic); numpy arrays
  of one and two dimensions are lists and lists of equally long rows.  The two kernels
  \<open>h\<close> and \<open>lam\<close> are parameters: the notebook calls them on scalars and, elementwise, on
  arrays.
\<close>

type_synonym kernel = "real \<Rightarrow> real \<Rightarrow> real"
type_synonym vector = "real list"
type_synonym matrix = "real list list"

datatype error = ZeroDivisionError | ValueError

subsection \<open>Array primitives\<close>

text \<open>\<^verbatim>\<open>np.zeros(shape = (r, c))\<close>.\<close>

definition zeros :: "nat \<Rightarrow> nat \<Rightarrow> matrix" where
  "zeros r c = replicate r (replicate c 0)"

text \<open>\<^verbatim>\<open>np.arange(a, b)\<close> for integers \<open>0 \<le> a\<close>.\<close>

definition arange :: "nat \<Rightarrow> nat \<Rightarrow> nat list" where
  "arange a b = [a..<b]"

text \<open>The number of columns; an array without rows is taken to have none.\<close>

definition ncols :: "'a list list \<Rightarrow> nat" where
  "ncols A = (case A of [] \<Rightarrow> 0 | r # _ \<Rightarrow> length r)"


text \<open>\<^verbatim>\<open>np.diagonal(A)\<close>: the entries \<open>A[n, n]\<close> for \<open>n\<close> below both dimensions.\<close>

definition diagonal :: "matrix \<Rightarrow> vector" where
  "diagonal A = map (\<lambda>n. A ! n ! n) [0..<min (length A) (ncols A)]"

text \<open>
  A slice \<^verbatim>\<open>xs[a : b]\<close> with non-negative bounds.  numpy clips both bounds to the length,
  which \<^const>\<open>take\<close> and \<^const>\<open>drop\<close> do as well; the slice is empty when \<open>b \<le> a\<close>.
\<close>

definition slice :: "nat \<Rightarrow> nat \<Rightarrow> 'a list \<Rightarrow> 'a list" where
  "slice a b xs = take (b - a) (drop a xs)"

text \<open>\<^verbatim>\<open>A[r0 : r1, c0 : c1]\<close>.\<close>

definition slice2 :: "nat \<Rightarrow> nat \<Rightarrow> nat \<Rightarrow> nat \<Rightarrow> 'a list list \<Rightarrow> 'a list list" where
  "slice2 r0 r1 c0 c1 A = map (slice c0 c1) (slice r0 r1 A)"

text \<open>\<^verbatim>\<open>A[r0 : r1, c]\<close>: column \<open>c\<close> of the rows \<open>r0\<close> to \<open>r1 - 1\<close>.\<close>

definition column_slice :: "nat \<Rightarrow> nat \<Rightarrow> nat \<Rightarrow> 'a list list \<Rightarrow> 'a list" where
  "column_slice r0 r1 c A = map (\<lambda>row. row ! c) (slice r0 r1 A)"

text \<open>\<^verbatim>\<open>A[n, i] = v\<close>.\<close>

definition set_entry :: "matrix \<Rightarrow> nat \<Rightarrow> nat \<Rightarrow> real \<Rightarrow> matrix" where
  "set_entry A n i v = A[n := (A ! n)[i := v]]"

text \<open>\<^verbatim>\<open>np.sum\<close> of a vector, in exact arithmetic.\<close>

definition np_sum :: "vector \<Rightarrow> real" where
  "np_sum xs = sum_list xs"

subsection \<open>Algorithm 1\<close>

text \<open>
  The right-hand side of the assignment to \<^verbatim>\<open>fhat[n, i]\<close>.  The loops give \<open>i \<le> n\<close>, so
  \<^verbatim>\<open>n - i\<close> is not negative, and the index array \<^verbatim>\<open>i - np.arange(1, i + 1)\<close> holds
  \<open>i - 1, \<dots>, 0\<close>.
\<close>

definition fhat_entry :: "real \<Rightarrow> kernel \<Rightarrow> kernel \<Rightarrow> matrix \<Rightarrow> nat \<Rightarrow> nat \<Rightarrow> real" where
  "fhat_entry Delta h lam fhat n i =
     (if i = 0 then h (real n * Delta) (real n * Delta)
      else h (real n * Delta) (real (n - i) * Delta) +
        np_sum (map (\<lambda>x. x * Delta)
          (map2 (*)
            (map (\<lambda>k. fhat ! n ! (i - k)) (arange 1 (i + 1)))
            (map (\<lambda>u. lam u (real (n - i) * Delta))
               (map (\<lambda>k. Delta * real k) (arange 1 (i + 1)))))))"

text \<open>The inner loop \<^verbatim>\<open>for i in range(n + 1)\<close>, over the list of its indices.\<close>

fun fill_row :: "real \<Rightarrow> kernel \<Rightarrow> kernel \<Rightarrow> nat \<Rightarrow> nat list \<Rightarrow> matrix \<Rightarrow> matrix" where
  "fill_row Delta h lam n [] fhat = fhat"
| "fill_row Delta h lam n (i # js) fhat =
     fill_row Delta h lam n js (set_entry fhat n i (fhat_entry Delta h lam fhat n i))"

text \<open>The outer loop \<^verbatim>\<open>for n in range(N + 1)\<close>, over the list of its indices.\<close>

fun fill_rows :: "real \<Rightarrow> kernel \<Rightarrow> kernel \<Rightarrow> nat list \<Rightarrow> matrix \<Rightarrow> matrix" where
  "fill_rows Delta h lam [] fhat = fhat"
| "fill_rows Delta h lam (n # ns) fhat =
     fill_rows Delta h lam ns (fill_row Delta h lam n (arange 0 (n + 1)) fhat)"

text \<open>The working array of Algorithm 1 after both loops, and \<^verbatim>\<open>f_loop\<close>.\<close>

definition fhat_final :: "nat \<Rightarrow> real \<Rightarrow> kernel \<Rightarrow> kernel \<Rightarrow> matrix" where
  "fhat_final N Delta h lam =
     fill_rows Delta h lam (arange 0 (N + 1)) (zeros (N + 1) (N + 1))"

definition algorithm1 :: "nat \<Rightarrow> real \<Rightarrow> kernel \<Rightarrow> kernel \<Rightarrow> vector" where
  "algorithm1 N Delta h lam = diagonal (fhat_final N Delta h lam)"

subsection \<open>Algorithm 2\<close>

text \<open>\<^verbatim>\<open>np.tile(v, (r, 1))\<close>: \<open>r\<close> copies of the row \<open>v\<close>.\<close>

definition tile :: "'a list \<Rightarrow> nat \<Rightarrow> 'a list list" where
  "tile v r = replicate r v"

text \<open>\<^verbatim>\<open>np.transpose\<close> of a two-dimensional array.\<close>

definition np_transpose :: "'a list list \<Rightarrow> 'a list list" where
  "np_transpose A = map (\<lambda>c. map (\<lambda>row. row ! c) A) [0..<ncols A]"

text \<open>
  \<^verbatim>\<open>scipy.linalg.toeplitz(c)\<close> with a real first column and no first row given: the
  symmetric matrix with the entry \<open>c[|i - j|]\<close> at \<open>(i, j)\<close>.
\<close>

definition toeplitz :: "'a list \<Rightarrow> 'a list list" where
  "toeplitz c =
     map (\<lambda>i. map (\<lambda>j. c ! (if j \<le> i then i - j else j - i)) [0..<length c]) [0..<length c]"

text \<open>\<^verbatim>\<open>Delta * A\<close> for an integer array \<open>A\<close>.\<close>

definition scale :: "real \<Rightarrow> nat list list \<Rightarrow> matrix" where
  "scale Delta A = map (map (\<lambda>x. Delta * real x)) A"

text \<open>A kernel called on two arrays of one shape: elementwise.\<close>

definition kernel_on :: "kernel \<Rightarrow> matrix \<Rightarrow> matrix \<Rightarrow> matrix" where
  "kernel_on f A B = map2 (map2 f) A B"

text \<open>
  numpy broadcasts the operands of an elementwise operation: along each axis the two
  lengths are equal or one of them is 1 (that operand is repeated), and anything else
  raises \<^verbatim>\<open>ValueError\<close>.
\<close>

definition broadcast_dim :: "nat \<Rightarrow> nat \<Rightarrow> nat option" where
  "broadcast_dim a b =
     (if a = b then Some a else if a = 1 then Some b else if b = 1 then Some a else None)"

definition bget :: "'a list \<Rightarrow> nat \<Rightarrow> 'a" where
  "bget xs j = (if length xs = 1 then xs ! 0 else xs ! j)"

text \<open>\<^verbatim>\<open>A * B\<close> on two-dimensional arrays.\<close>

definition np_mul :: "matrix \<Rightarrow> matrix \<Rightarrow> error + matrix" where
  "np_mul A B =
     (case broadcast_dim (length A) (length B) of
        None \<Rightarrow> Inl ValueError
      | Some r \<Rightarrow>
         (case broadcast_dim (ncols A) (ncols B) of
            None \<Rightarrow> Inl ValueError
          | Some c \<Rightarrow>
              Inr (map (\<lambda>i. map (\<lambda>j. bget (bget A i) j * bget (bget B i) j) [0..<c])
                     [0..<r])))"

text \<open>\<^verbatim>\<open>x + y\<close> on one-dimensional arrays.\<close>

definition np_add :: "vector \<Rightarrow> vector \<Rightarrow> error + vector" where
  "np_add x y =
     (case broadcast_dim (length x) (length y) of
        None \<Rightarrow> Inl ValueError
      | Some n \<Rightarrow> Inr (map (\<lambda>j. bget x j + bget y j) [0..<n]))"

text \<open>
  \<^verbatim>\<open>A[r0 : r1, c] = v\<close>: the vector \<open>v\<close> has as many entries as the slice has rows, or one
  entry that is repeated; anything else raises \<^verbatim>\<open>ValueError\<close>.
\<close>

definition assign_column :: "matrix \<Rightarrow> nat \<Rightarrow> nat \<Rightarrow> nat \<Rightarrow> vector \<Rightarrow> error + matrix" where
  "assign_column A r0 r1 c v =
     (let m = length (slice r0 r1 A) in
      if length v = m \<or> length v = 1 then
        Inr (map (\<lambda>n. if r0 \<le> n \<and> n < r0 + m then (A ! n)[c := bget v (n - r0)] else A ! n)
               [0..<length A])
      else Inl ValueError)"

text \<open>The matrices \<^verbatim>\<open>A_H\<close>, \<^verbatim>\<open>B_H\<close>, \<^verbatim>\<open>H\<close>, \<^verbatim>\<open>A_L\<close>, \<^verbatim>\<open>B_L\<close> and \<^verbatim>\<open>L\<close>.\<close>

definition A_H :: "nat \<Rightarrow> real \<Rightarrow> matrix" where
  "A_H N Delta = scale Delta (np_transpose (tile (arange 0 (N + 1)) (N + 1)))"

definition B_H :: "nat \<Rightarrow> real \<Rightarrow> matrix" where
  "B_H N Delta = scale Delta (toeplitz (arange 0 (N + 1)))"

definition H_matrix :: "nat \<Rightarrow> real \<Rightarrow> kernel \<Rightarrow> matrix" where
  "H_matrix N Delta h = kernel_on h (A_H N Delta) (B_H N Delta)"

definition A_L :: "nat \<Rightarrow> real \<Rightarrow> matrix" where
  "A_L N Delta = slice2 0 N 0 N (A_H N Delta)"

definition B_L :: "nat \<Rightarrow> real \<Rightarrow> matrix" where
  "B_L N Delta = scale Delta (tile (rev (arange 1 (N + 1))) N)"

definition L_matrix :: "nat \<Rightarrow> real \<Rightarrow> kernel \<Rightarrow> matrix" where
  "L_matrix N Delta lam =
     map (map (\<lambda>x. x * Delta)) (kernel_on lam (B_L N Delta) (A_L N Delta))"

text \<open>
  One pass of the loop \<^verbatim>\<open>for i in range(N)\<close>: the product \<^verbatim>\<open>B\<close> of the prefix of \<open>F\<close> and
  the window of \<open>L\<close>, its sum along the last axis added to the column of \<open>H\<close>, and the
  assignment to column \<open>i + 1\<close> of \<open>F\<close>.  The window of \<open>L\<close> is sliced up to \<open>N + 1\<close>, as in
  the notebook.
\<close>

definition column_step :: "nat \<Rightarrow> matrix \<Rightarrow> matrix \<Rightarrow> nat \<Rightarrow> matrix \<Rightarrow> error + matrix" where
  "column_step N H L i F =
     (case np_mul (slice2 (i + 1) (N + 1) 0 (i + 1) F) (slice2 0 (N - i) (N - i - 1) (N + 1) L) of
        Inl e \<Rightarrow> Inl e
      | Inr B \<Rightarrow>
         (case np_add (column_slice (i + 1) (N + 1) (i + 1) H) (map np_sum B) of
            Inl e \<Rightarrow> Inl e
          | Inr v \<Rightarrow> assign_column F (i + 1) (N + 1) (i + 1) v))"

fun column_loop :: "nat \<Rightarrow> matrix \<Rightarrow> matrix \<Rightarrow> nat list \<Rightarrow> matrix \<Rightarrow> error + matrix" where
  "column_loop N H L [] F = Inr F"
| "column_loop N H L (i # js) F =
     (case column_step N H L i F of
        Inl e \<Rightarrow> Inl e
      | Inr F' \<Rightarrow> column_loop N H L js F')"

text \<open>
  The working array of Algorithm 2, started from an array \<open>F0\<close>: the assignment
  \<^verbatim>\<open>F[:, 0] = H[:, 0]\<close> and the passes of the loop for the indices \<open>js\<close>.  The notebook
  starts from zeros and runs \<^verbatim>\<open>range(N)\<close>; a prefix of that range gives the array before
  a later pass.
\<close>

definition F_from ::
  "nat \<Rightarrow> real \<Rightarrow> kernel \<Rightarrow> kernel \<Rightarrow> nat list \<Rightarrow> matrix \<Rightarrow> error + matrix" where
  "F_from N Delta h lam js F0 =
     (let H = H_matrix N Delta h; L = L_matrix N Delta lam in
      case assign_column F0 0 (length F0) 0 (column_slice 0 (length H) 0 H) of
        Inl e \<Rightarrow> Inl e
      | Inr F \<Rightarrow> column_loop N H L js F)"

definition F_final :: "nat \<Rightarrow> real \<Rightarrow> kernel \<Rightarrow> kernel \<Rightarrow> error + matrix" where
  "F_final N Delta h lam = F_from N Delta h lam (arange 0 N) (zeros (N + 1) (N + 1))"

definition algorithm2 :: "nat \<Rightarrow> real \<Rightarrow> kernel \<Rightarrow> kernel \<Rightarrow> error + vector" where
  "algorithm2 N Delta h lam =
     (case F_final N Delta h lam of Inl e \<Rightarrow> Inl e | Inr F \<Rightarrow> Inr (diagonal F))"

subsection \<open>The notebook\<close>

text \<open>
  The cells in their order, for a horizon \<open>T\<close> (100 in the notebook) and a step count \<open>N\<close>
  (500 in the notebook), a Python integer.  Nothing in the notebook looks at the sign of
  \<open>T\<close> or of \<open>N\<close>; what refuses a step count is the division and the array constructors.

  \<^verbatim>\<open>T / N\<close> raises \<^verbatim>\<open>ZeroDivisionError\<close> for \<open>N = 0\<close>.
\<close>

definition py_truediv :: "real \<Rightarrow> int \<Rightarrow> error + real" where
  "py_truediv T N = (if N = 0 then Inl ZeroDivisionError else Inr (T / real_of_int N))"

text \<open>\<^verbatim>\<open>np.zeros(shape = (r, c))\<close> for integers: a negative dimension raises \<^verbatim>\<open>ValueError\<close>.\<close>

definition np_zeros :: "int \<Rightarrow> int \<Rightarrow> error + matrix" where
  "np_zeros r c = (if r < 0 \<or> c < 0 then Inl ValueError else Inr (zeros (nat r) (nat c)))"

text \<open>
  \<^verbatim>\<open>np.tile(v, (r, 1))\<close> for an integer \<open>r\<close>: a negative repetition count raises
  \<^verbatim>\<open>ValueError\<close>.
\<close>

definition np_tile :: "'a list \<Rightarrow> int \<Rightarrow> error + 'a list list" where
  "np_tile v r = (if r < 0 then Inl ValueError else Inr (tile v (nat r)))"

text \<open>
  \<^verbatim>\<open>range(b)\<close> and \<^verbatim>\<open>np.arange(a, b)\<close> for an integer bound \<open>b\<close>: empty when \<open>b\<close> is not
  above the start.
\<close>

definition py_arange :: "nat \<Rightarrow> int \<Rightarrow> nat list" where
  "py_arange a b = arange a (nat b)"

text \<open>
  Cell 14 for an integer \<open>N\<close>: the allocation of \<^verbatim>\<open>fhat\<close>, the two loops and
  \<^verbatim>\<open>f_loop\<close>.  For \<open>N = - 1\<close> the array has no rows, the loops do nothing and \<^verbatim>\<open>f_loop\<close> is
  empty.
\<close>

definition algorithm1_cell :: "int \<Rightarrow> real \<Rightarrow> kernel \<Rightarrow> kernel \<Rightarrow> error + vector" where
  "algorithm1_cell N Delta h lam =
     (case np_zeros (N + 1) (N + 1) of
        Inl e \<Rightarrow> Inl e
      | Inr fhat \<Rightarrow> Inr (diagonal (fill_rows Delta h lam (py_arange 0 (N + 1)) fhat)))"

text \<open>
  Cells 16 to 20 for an integer \<open>N\<close>.  The two calls of \<^verbatim>\<open>np.tile\<close>, with the repetition
  counts \<open>N + 1\<close> (cell 16) and \<open>N\<close> (cell 18), are the first operations of these cells that
  can refuse \<open>N\<close>; where both succeed \<open>N\<close> is not negative, the tiled arrays are those of
  \<^const>\<open>A_H\<close> and \<^const>\<open>B_L\<close>, and the cells are \<^const>\<open>algorithm2\<close>.  For \<open>N = - 1\<close> the
  first call succeeds with an array without rows, on which cell 16 evaluates \<open>h\<close> to an
  empty array, and the second call raises.
\<close>

definition algorithm2_cells :: "int \<Rightarrow> real \<Rightarrow> kernel \<Rightarrow> kernel \<Rightarrow> error + vector" where
  "algorithm2_cells N Delta h lam =
     (case np_tile (py_arange 0 (N + 1)) (N + 1) of
        Inl e \<Rightarrow> Inl e
      | Inr tiled_H \<Rightarrow>
         (case np_tile (rev (py_arange 1 (N + 1))) N of
            Inl e \<Rightarrow> Inl e
          | Inr tiled_L \<Rightarrow> algorithm2 (nat N) Delta h lam))"

text \<open>The whole run: cell 8, cell 14, cells 16 to 20.\<close>

definition notebook :: "real \<Rightarrow> int \<Rightarrow> kernel \<Rightarrow> kernel \<Rightarrow> error + (vector \<times> vector)" where
  "notebook T N h lam =
     (case py_truediv T N of
        Inl e \<Rightarrow> Inl e
      | Inr Delta \<Rightarrow>
         (case algorithm1_cell N Delta h lam of
            Inl e \<Rightarrow> Inl e
          | Inr f_loop \<Rightarrow>
             (case algorithm2_cells N Delta h lam of
                Inl e \<Rightarrow> Inl e
              | Inr f_vec \<Rightarrow> Inr (f_loop, f_vec))))"

subsection \<open>Auxiliary notions\<close>

text \<open>An array of \<open>r\<close> rows with \<open>c\<close> entries each.\<close>

definition rect :: "nat \<Rightarrow> nat \<Rightarrow> 'a list list \<Rightarrow> bool" where
  "rect r c A = (length A = r \<and> list_all (\<lambda>row. length row = c) A)"

text \<open>
  The value assigned to \<^verbatim>\<open>fhat[n, i]\<close> as a function of row \<open>n\<close> alone, and the inner loop
  as a function on that row.
\<close>

definition row_entry :: "real \<Rightarrow> kernel \<Rightarrow> kernel \<Rightarrow> nat \<Rightarrow> vector \<Rightarrow> nat \<Rightarrow> real" where
  "row_entry Delta h lam n row i =
     (if i = 0 then h (real n * Delta) (real n * Delta)
      else h (real n * Delta) (real (n - i) * Delta) +
        Delta * (\<Sum>k = 1..i. row ! (i - k) * lam (real k * Delta) (real (n - i) * Delta)))"

fun row_fill :: "real \<Rightarrow> kernel \<Rightarrow> kernel \<Rightarrow> nat \<Rightarrow> nat list \<Rightarrow> vector \<Rightarrow> vector" where
  "row_fill Delta h lam n [] row = row"
| "row_fill Delta h lam n (i # js) row =
     row_fill Delta h lam n js (row[i := row_entry Delta h lam n row i])"

text \<open>
  The recurrence of Algorithm 1 as the specification writes it:
  \<open>F[n][0] = h(n\<Delta>, n\<Delta>)\<close> and
  \<open>F[n][i] = h(n\<Delta>, (n - i)\<Delta>) + \<Delta> \<Sum>\<^bsub>k = 1..i\<^esub> F[n][i - k] \<lambda>(k\<Delta>, (n - i)\<Delta>)\<close>.
\<close>

function direct_recurrence :: "real \<Rightarrow> kernel \<Rightarrow> kernel \<Rightarrow> nat \<Rightarrow> nat \<Rightarrow> real" where
  "direct_recurrence Delta h lam n i =
     (if i = 0 then h (real n * Delta) (real n * Delta)
      else h (real n * Delta) (real (n - i) * Delta) +
        Delta * (\<Sum>k = 1..i. direct_recurrence Delta h lam n (i - k) *
                   lam (real k * Delta) (real (n - i) * Delta)))"
  by pat_completeness auto
termination
  by (relation "measure (\<lambda>(Delta, h, lam, n, i). i)") auto

text \<open>The array with the entry \<open>f n i\<close> at \<open>(n, i)\<close>, of \<open>r\<close> rows and \<open>c\<close> columns.\<close>

definition table :: "nat \<Rightarrow> nat \<Rightarrow> (nat \<Rightarrow> nat \<Rightarrow> 'a) \<Rightarrow> 'a list list" where
  "table r c f = map (\<lambda>n. map (f n) [0..<c]) [0..<r]"

section \<open>Algorithm 1: the rows of the working array\<close>

declare direct_recurrence.simps [simp del]

lemma rect_nth: "rect r c A \<Longrightarrow> n < r \<Longrightarrow> length (A ! n) = c"
  by (auto simp: rect_def list_all_length)

lemma rect_length: "rect r c A \<Longrightarrow> length A = r"
  by (simp add: rect_def)

lemma rectI: "length A = r \<Longrightarrow> (\<And>n. n < r \<Longrightarrow> length (A ! n) = c) \<Longrightarrow> rect r c A"
  by (auto simp: rect_def list_all_length)

lemma map2_same: "map2 f (map g xs) (map k xs) = map (\<lambda>x. f (g x) (k x)) xs"
  by (induction xs) auto

lemma sum_list_upt_sum:
  "sum_list (map f [1..<i + 1]) = (\<Sum>k = 1..i. f k)"
proof -
  have "sum_list (map f [1..<i + 1]) = sum f (set [1..<i + 1])"
    by (rule interv_sum_list_conv_sum_set_nat)
  also have "set [1..<i + 1] = {1..i}"
    by auto
  finally show ?thesis .
qed

lemma fhat_entry_row:
  "fhat_entry Delta h lam fhat n i = row_entry Delta h lam n (fhat ! n) i"
proof -
  have "np_sum (map (\<lambda>x. x * Delta)
          (map2 (*)
            (map (\<lambda>k. fhat ! n ! (i - k)) (arange 1 (i + 1)))
            (map (\<lambda>u. lam u (real (n - i) * Delta))
               (map (\<lambda>k. Delta * real k) (arange 1 (i + 1))))))
      = Delta * (\<Sum>k = 1..i. fhat ! n ! (i - k) * lam (real k * Delta) (real (n - i) * Delta))"
    unfolding np_sum_def arange_def map_map map2_same o_def sum_list_upt_sum sum_distrib_left
    by (rule sum.cong) (simp_all add: mult.commute)
  then show ?thesis
    unfolding fhat_entry_def row_entry_def by simp
qed

lemma fill_row_eq:
  "n < length F \<Longrightarrow>
   fill_row Delta h lam n js F = F[n := row_fill Delta h lam n js (F ! n)]"
  by (induction js arbitrary: F) (simp_all add: set_entry_def fhat_entry_row)

lemma row_fill_append:
  "row_fill Delta h lam n (js @ [i]) row =
     (row_fill Delta h lam n js row)[i := row_entry Delta h lam n (row_fill Delta h lam n js row) i]"
  by (induction js arbitrary: row) simp_all

lemma length_row_fill [simp]: "length (row_fill Delta h lam n js row) = length row"
  by (induction js arbitrary: row) simp_all

lemma row_entry_recurrence:
  "(\<And>j. j < i \<Longrightarrow> r ! j = direct_recurrence Delta h lam n j) \<Longrightarrow>
   row_entry Delta h lam n r i = direct_recurrence Delta h lam n i"
  by (subst direct_recurrence.simps) (auto simp: row_entry_def intro!: sum.cong)

lemma row_fill_upt:
  "m \<le> length row \<Longrightarrow>
   (\<forall>i < m. row_fill Delta h lam n [0..<m] row ! i = direct_recurrence Delta h lam n i) \<and>
   (\<forall>j \<ge> m. row_fill Delta h lam n [0..<m] row ! j = row ! j)"
proof (induction m)
  case 0
  then show ?case by simp
next
  case (Suc m)
  let ?r = "row_fill Delta h lam n [0..<m] row"
  from Suc have IH1: "\<And>i. i < m \<Longrightarrow> ?r ! i = direct_recurrence Delta h lam n i"
    and IH2: "\<And>j. m \<le> j \<Longrightarrow> ?r ! j = row ! j" and m: "m < length row" by auto
  have e: "row_entry Delta h lam n ?r m = direct_recurrence Delta h lam n m"
    by (rule row_entry_recurrence) (rule IH1)
  show ?case using m IH1 IH2
    by (auto simp: row_fill_append e nth_list_update less_Suc_eq)
qed

lemma rect_ncols: "rect r c A \<Longrightarrow> 0 < r \<Longrightarrow> ncols A = c"
  by (cases A) (auto simp: rect_def ncols_def)

lemma rect_zeros: "rect r c (zeros r c)"
  by (simp add: rect_def zeros_def list_all_length)

lemma zeros_nth: "n < r \<Longrightarrow> i < c \<Longrightarrow> zeros r c ! n ! i = 0"
  by (simp add: zeros_def)

lemma length_fill_rows [simp]: "length (fill_rows Delta h lam ns A) = length A"
proof (induction ns arbitrary: A)
  case Nil
  then show ?case by simp
next
  case (Cons n ns)
  show ?case
  proof (cases "n < length A")
    case True
    then show ?thesis by (simp add: Cons.IH fill_row_eq)
  next
    case False
    have "fill_row Delta h lam n js A = A" for js
      using False by (induction js arbitrary: A) (simp_all add: set_entry_def list_update_beyond)
    then show ?thesis by (simp add: Cons.IH)
  qed
qed

lemma fill_rows_nth:
  "distinct ns \<Longrightarrow> (\<And>n. n \<in> set ns \<Longrightarrow> n < length A) \<Longrightarrow> m < length A \<Longrightarrow>
   fill_rows Delta h lam ns A ! m =
     (if m \<in> set ns then row_fill Delta h lam m [0..<m + 1] (A ! m) else A ! m)"
proof (induction ns arbitrary: A)
  case Nil
  then show ?case by simp
next
  case (Cons n ns)
  let ?A = "A[n := row_fill Delta h lam n [0..<n + 1] (A ! n)]"
  have n: "n < length A" using Cons.prems(2) by simp
  have step: "fill_rows Delta h lam (n # ns) A = fill_rows Delta h lam ns ?A"
    using n by (simp add: fill_row_eq arange_def)
  have "fill_rows Delta h lam ns ?A ! m =
     (if m \<in> set ns then row_fill Delta h lam m [0..<m + 1] (?A ! m) else ?A ! m)"
    using Cons.prems by (intro Cons.IH) auto
  then show ?case
    unfolding step using Cons.prems(1,3) n by (auto simp: nth_list_update)
qed

lemma fill_rows_entry:
  assumes "rect (N + 1) (N + 1) A" "distinct ns" "set ns = {0..N}" "n \<le> N" "i \<le> N"
  shows "fill_rows Delta h lam ns A ! n ! i =
     (if i \<le> n then direct_recurrence Delta h lam n i else A ! n ! i)"
proof -
  have len: "length A = N + 1" and row: "length (A ! n) = N + 1"
    using assms(1,4) by (simp_all add: rect_length rect_nth)
  have "fill_rows Delta h lam ns A ! n = row_fill Delta h lam n [0..<n + 1] (A ! n)"
    using assms len by (subst fill_rows_nth) auto
  moreover have "n + 1 \<le> length (A ! n)" using row assms(4) by simp
  ultimately show ?thesis
    using row_fill_upt [of "n + 1" "A ! n" Delta h lam n] by auto
qed

lemma rect_fill_rows:
  assumes "rect r c A" "distinct ns" "set ns \<subseteq> {0..<r}"
  shows "rect r c (fill_rows Delta h lam ns A)"
proof (rule rectI)
  show "length (fill_rows Delta h lam ns A) = r" using assms(1) by (simp add: rect_length)
next
  fix n assume n: "n < r"
  have "fill_rows Delta h lam ns A ! n =
     (if n \<in> set ns then row_fill Delta h lam n [0..<n + 1] (A ! n) else A ! n)"
    using assms n by (intro fill_rows_nth) (auto simp: rect_length)
  then show "length (fill_rows Delta h lam ns A ! n) = c"
    using rect_nth [OF assms(1) n] by simp
qed

lemma diagonal_rect:
  "rect (N + 1) (N + 1) A \<Longrightarrow> diagonal A = map (\<lambda>n. A ! n ! n) [0..<N + 1]"
  unfolding diagonal_def by (simp add: rect_length rect_ncols del: upt_Suc)

lemma diagonal_fill_rows:
  assumes "rect (N + 1) (N + 1) A" "distinct ns" "set ns = {0..N}"
  shows "diagonal (fill_rows Delta h lam ns A) = map (\<lambda>n. direct_recurrence Delta h lam n n) [0..<N + 1]"
proof -
  have "rect (N + 1) (N + 1) (fill_rows Delta h lam ns A)"
    using assms by (intro rect_fill_rows) auto
  then have "diagonal (fill_rows Delta h lam ns A) = map (\<lambda>n. fill_rows Delta h lam ns A ! n ! n) [0..<N + 1]"
    by (rule diagonal_rect)
  also have "\<dots> = map (\<lambda>n. direct_recurrence Delta h lam n n) [0..<N + 1]"
  proof (rule map_cong [OF refl])
    fix n assume "n \<in> set [0..<N + 1]"
    then have n: "n \<le> N" by auto
    show "fill_rows Delta h lam ns A ! n ! n = direct_recurrence Delta h lam n n"
      using fill_rows_entry [OF assms n n] by simp
  qed
  finally show ?thesis .
qed

lemma fhat_final_entry:
  "n \<le> N \<Longrightarrow> i \<le> N \<Longrightarrow>
   fhat_final N Delta h lam ! n ! i = (if i \<le> n then direct_recurrence Delta h lam n i else 0)"
  unfolding fhat_final_def arange_def
  by (subst fill_rows_entry [where N = N]) (auto simp: rect_zeros zeros_nth)

lemma algorithm1_recurrence:
  "algorithm1 N Delta h lam = map (\<lambda>n. direct_recurrence Delta h lam n n) [0..<N + 1]"
  unfolding algorithm1_def fhat_final_def arange_def
  by (rule diagonal_fill_rows) (auto simp: rect_zeros)

section \<open>Slices, tables and the kernel matrices\<close>

lemma length_slice: "length (slice a b xs) = min (b - a) (length xs - a)"
  by (simp add: slice_def)

lemma nth_slice: "j < b - a \<Longrightarrow> a + j < length xs \<Longrightarrow> slice a b xs ! j = xs ! (a + j)"
  by (simp add: slice_def)

lemma rect_table: "rect r c (map (\<lambda>n. map (f n) [0..<c]) [0..<r])"
  by (simp add: rect_def list_all_length)

lemma rect_table_eq:
  assumes "rect r c A"
  shows "A = map (\<lambda>n. map (\<lambda>i. A ! n ! i) [0..<c]) [0..<r]"
proof (rule nth_equalityI)
  show "length A = length (map (\<lambda>n. map (\<lambda>i. A ! n ! i) [0..<c]) [0..<r])"
    using assms by (simp add: rect_length)
next
  fix n assume "n < length A"
  then have n: "n < r" using assms by (simp add: rect_length)
  have "A ! n = map (\<lambda>i. A ! n ! i) [0..<c]"
    using rect_nth [OF assms n] by (intro nth_equalityI) simp_all
  then show "A ! n = map (\<lambda>n. map (\<lambda>i. A ! n ! i) [0..<c]) [0..<r] ! n"
    using n by simp
qed

lemma table_eqI:
  assumes "rect r c A" and "\<And>n i. n < r \<Longrightarrow> i < c \<Longrightarrow> A ! n ! i = f n i"
  shows "A = map (\<lambda>n. map (f n) [0..<c]) [0..<r]"
proof -
  have "map (\<lambda>n. map (\<lambda>i. A ! n ! i) [0..<c]) [0..<r] = map (\<lambda>n. map (f n) [0..<c]) [0..<r]"
    by (intro map_cong refl) (simp add: assms(2))
  then show ?thesis using rect_table_eq [OF assms(1)] by simp
qed

lemma ncols_replicate: "0 < r \<Longrightarrow> ncols (replicate r v) = length v"
  by (cases r) (simp_all add: ncols_def)

lemma A_H_table:
  "A_H N Delta = map (\<lambda>n. map (\<lambda>c. Delta * real n) [0..<N + 1]) [0..<N + 1]"
proof (rule table_eqI)
  have nc: "ncols (replicate (N + 1) [0..<N + 1]) = N + 1"
    by (subst ncols_replicate) simp_all
  show "rect (N + 1) (N + 1) (A_H N Delta)"
    unfolding A_H_def scale_def np_transpose_def tile_def arange_def nc
    by (simp add: rect_def list_all_length del: upt_Suc replicate_Suc)
  fix n i assume "n < N + 1" "i < N + 1"
  then show "A_H N Delta ! n ! i = Delta * real n"
    unfolding A_H_def scale_def np_transpose_def tile_def arange_def nc
    by (simp del: upt_Suc replicate_Suc)
qed

lemma B_H_table:
  "B_H N Delta =
     map (\<lambda>n. map (\<lambda>c. Delta * real (if c \<le> n then n - c else c - n)) [0..<N + 1]) [0..<N + 1]"
  unfolding B_H_def scale_def toeplitz_def arange_def
  by (auto simp del: upt_Suc)

lemma map2_table:
  "map2 (map2 f) (map (\<lambda>n. map (a n) [0..<c]) [0..<r]) (map (\<lambda>n. map (b n) [0..<c]) [0..<r]) =
   map (\<lambda>n. map (\<lambda>i. f (a n i) (b n i)) [0..<c]) [0..<r]"
  by (simp add: map2_same o_def del: upt_Suc)

lemma H_matrix_table:
  "H_matrix N Delta h =
     map (\<lambda>n. map (\<lambda>c. h (Delta * real n) (Delta * real (if c \<le> n then n - c else c - n)))
        [0..<N + 1]) [0..<N + 1]"
  unfolding H_matrix_def kernel_on_def A_H_table B_H_table map2_table ..

lemma A_L_table:
  "A_L N Delta = map (\<lambda>n. map (\<lambda>c. Delta * real n) [0..<N]) [0..<N]"
  unfolding A_L_def A_H_table slice2_def slice_def
  by (simp add: take_map del: upt_Suc)

lemma B_L_table:
  "B_L N Delta = map (\<lambda>n. map (\<lambda>c. Delta * real (N - c)) [0..<N]) [0..<N]"
proof (rule table_eqI)
  show "rect N N (B_L N Delta)"
    unfolding B_L_def scale_def tile_def arange_def
    by (simp add: rect_def list_all_length del: upt_Suc replicate_Suc)
  fix n i assume "n < N" "i < N"
  then show "B_L N Delta ! n ! i = Delta * real (N - i)"
    unfolding B_L_def scale_def tile_def arange_def
    by (simp add: rev_nth del: upt_Suc replicate_Suc)
qed

lemma L_matrix_table:
  "L_matrix N Delta lam =
     map (\<lambda>j. map (\<lambda>k. lam (Delta * real (N - k)) (Delta * real j) * Delta) [0..<N]) [0..<N]"
  unfolding L_matrix_def kernel_on_def A_L_table B_L_table map2_table
  by (simp add: o_def del: upt_Suc)

lemma length_table [simp]: "length (table r c f) = r"
  by (simp add: table_def)

lemma nth_table [simp]: "n < r \<Longrightarrow> i < c \<Longrightarrow> table r c f ! n ! i = f n i"
  by (simp add: table_def)

lemma length_table_row [simp]: "n < r \<Longrightarrow> length (table r c f ! n) = c"
  by (simp add: table_def)

lemma rect_table': "rect r c (table r c f)"
  unfolding table_def by (rule rect_table)

lemma ncols_table: "0 < r \<Longrightarrow> ncols (table r c f) = c"
  by (simp add: rect_ncols [OF rect_table'])

lemma rect_as_table: "rect r c A \<Longrightarrow> A = table r c (\<lambda>n i. A ! n ! i)"
  unfolding table_def by (rule rect_table_eq)

lemma table_cong:
  "(\<And>n i. n < r \<Longrightarrow> i < c \<Longrightarrow> f n i = g n i) \<Longrightarrow> table r c f = table r c g"
  unfolding table_def by (intro map_cong refl) simp

lemma rect_slice2:
  assumes "rect R C A"
  shows "rect (min (r1 - r0) (R - r0)) (min (c1 - c0) (C - c0)) (slice2 r0 r1 c0 c1 A)"
proof (rule rectI)
  show len: "length (slice2 r0 r1 c0 c1 A) = min (r1 - r0) (R - r0)"
    using assms by (simp add: slice2_def length_slice rect_length)
  fix n assume n: "n < min (r1 - r0) (R - r0)"
  then have "r0 + n < R" by auto
  then have "length (A ! (r0 + n)) = C" using assms by (simp add: rect_nth)
  moreover have "slice r0 r1 A ! n = A ! (r0 + n)"
    using n assms by (intro nth_slice) (auto simp: rect_length)
  ultimately show "length (slice2 r0 r1 c0 c1 A ! n) = min (c1 - c0) (C - c0)"
    using n assms by (simp add: slice2_def length_slice rect_length)
qed

lemma slice2_nth:
  assumes "rect R C A" "n < min (r1 - r0) (R - r0)" "i < min (c1 - c0) (C - c0)"
  shows "slice2 r0 r1 c0 c1 A ! n ! i = A ! (r0 + n) ! (c0 + i)"
proof -
  have "r0 + n < R" using assms(2) by auto
  then have len: "length (A ! (r0 + n)) = C" using assms by (simp add: rect_nth)
  have row: "slice r0 r1 A ! n = A ! (r0 + n)"
    using assms by (intro nth_slice) (auto simp: rect_length)
  have "slice2 r0 r1 c0 c1 A ! n = slice c0 c1 (A ! (r0 + n))"
    using assms by (simp add: slice2_def length_slice rect_length row)
  moreover have "slice c0 c1 (A ! (r0 + n)) ! i = A ! (r0 + n) ! (c0 + i)"
    using assms(3) len by (intro nth_slice) auto
  ultimately show ?thesis by simp
qed

lemma slice2_table:
  assumes "rect R C A"
  shows "slice2 r0 r1 c0 c1 A =
     table (min (r1 - r0) (R - r0)) (min (c1 - c0) (C - c0)) (\<lambda>n i. A ! (r0 + n) ! (c0 + i))"
proof -
  have "slice2 r0 r1 c0 c1 A =
      table (min (r1 - r0) (R - r0)) (min (c1 - c0) (C - c0)) (\<lambda>n i. slice2 r0 r1 c0 c1 A ! n ! i)"
    by (rule rect_as_table) (rule rect_slice2 [OF assms])
  also have "\<dots> = table (min (r1 - r0) (R - r0)) (min (c1 - c0) (C - c0)) (\<lambda>n i. A ! (r0 + n) ! (c0 + i))"
    by (rule table_cong) (simp add: slice2_nth [OF assms])
  finally show ?thesis .
qed

lemma bget_nth: "j < length xs \<Longrightarrow> bget xs j = xs ! j"
  by (auto simp: bget_def)

lemma np_mul_table:
  assumes "0 < r"
  shows "np_mul (table r c a) (table r c b) = Inr (table r c (\<lambda>n i. a n i * b n i))"
proof -
  have "map (\<lambda>n. map (\<lambda>i. bget (bget (table r c a) n) i * bget (bget (table r c b) n) i) [0..<c]) [0..<r]
      = map (\<lambda>n. map (\<lambda>i. a n i * b n i) [0..<c]) [0..<r]"
    by (intro map_cong refl) (simp add: bget_nth)
  then show ?thesis
    using assms by (simp add: np_mul_def broadcast_dim_def ncols_table table_def [of r c "\<lambda>n i. a n i * b n i"])
qed

lemma sum_list_upt0: "sum_list (map f [0..<c]) = (\<Sum>i<c. f i)"
  by (simp add: interv_sum_list_conv_sum_set_nat atLeast0LessThan)

lemma np_sum_table: "map np_sum (table r c f) = map (\<lambda>n. \<Sum>i<c. f n i) [0..<r]"
  by (simp add: table_def np_sum_def sum_list_upt0 o_def)

lemma np_add_maps:
  "np_add (map a [0..<m]) (map b [0..<m]) = Inr (map (\<lambda>n. a n + b n) [0..<m])"
  by (simp add: np_add_def broadcast_dim_def bget_nth)

lemma column_slice_rect:
  assumes "rect R C A"
  shows "column_slice r0 r1 c A = map (\<lambda>n. A ! (r0 + n) ! c) [0..<min (r1 - r0) (R - r0)]"
proof (rule nth_equalityI)
  show "length (column_slice r0 r1 c A) = length (map (\<lambda>n. A ! (r0 + n) ! c) [0..<min (r1 - r0) (R - r0)])"
    using assms by (simp add: column_slice_def length_slice rect_length)
  fix n assume "n < length (column_slice r0 r1 c A)"
  then have n: "n < min (r1 - r0) (R - r0)"
    using assms by (simp add: column_slice_def length_slice rect_length)
  then have "slice r0 r1 A ! n = A ! (r0 + n)"
    using assms by (intro nth_slice) (auto simp: rect_length)
  then show "column_slice r0 r1 c A ! n = map (\<lambda>n. A ! (r0 + n) ! c) [0..<min (r1 - r0) (R - r0)] ! n"
    using n assms by (simp add: column_slice_def length_slice rect_length)
qed

lemma assign_column_rect:
  assumes "rect R C A" "r0 \<le> R" "c < C"
  shows "assign_column A r0 r1 c (map v [0..<min (r1 - r0) (R - r0)]) =
     Inr (table R C (\<lambda>n i. if i = c \<and> r0 \<le> n \<and> n < r1 then v (n - r0) else A ! n ! i))"
proof -
  let ?m = "min (r1 - r0) (R - r0)"
  have m: "length (slice r0 r1 A) = ?m"
    using assms by (simp add: length_slice rect_length)
  have "map (\<lambda>n. if r0 \<le> n \<and> n < r0 + ?m then (A ! n)[c := bget (map v [0..<?m]) (n - r0)] else A ! n) [0..<R]
      = table R C (\<lambda>n i. if i = c \<and> r0 \<le> n \<and> n < r1 then v (n - r0) else A ! n ! i)"
    unfolding table_def
  proof (rule map_cong [OF refl])
    fix n assume "n \<in> set [0..<R]"
    then have n: "n < R" by simp
    have len: "length (A ! n) = C" using assms(1) n by (rule rect_nth)
    show "(if r0 \<le> n \<and> n < r0 + ?m then (A ! n)[c := bget (map v [0..<?m]) (n - r0)] else A ! n)
        = map (\<lambda>i. if i = c \<and> r0 \<le> n \<and> n < r1 then v (n - r0) else A ! n ! i) [0..<C]"
    proof (cases "r0 \<le> n \<and> n < r1")
      case True
      then have "n - r0 < ?m" using n by auto
      then have "bget (map v [0..<?m]) (n - r0) = v (n - r0)"
        by (simp add: bget_nth)
      moreover have "n < r0 + ?m" using True n by auto
      ultimately show ?thesis using True len
        by (auto intro!: nth_equalityI simp: nth_list_update)
    next
      case False
      then have "\<not> (r0 \<le> n \<and> n < r0 + ?m)" by auto
      then show ?thesis using False len
        by (auto intro!: nth_equalityI)
    qed
  qed
  then show ?thesis
    unfolding assign_column_def m Let_def using assms(1) by (simp add: rect_length)
qed

section \<open>Algorithm 2: the columns of the working array\<close>

lemma H_matrix_as_table:
  "H_matrix N Delta h =
     table (N + 1) (N + 1)
       (\<lambda>n c. h (Delta * real n) (Delta * real (if c \<le> n then n - c else c - n)))"
  unfolding table_def by (rule H_matrix_table)

lemma L_matrix_as_table:
  "L_matrix N Delta lam =
     table N N (\<lambda>j k. lam (Delta * real (N - k)) (Delta * real j) * Delta)"
  unfolding table_def by (rule L_matrix_table)

lemma rect_H_matrix: "rect (N + 1) (N + 1) (H_matrix N Delta h)"
  unfolding H_matrix_as_table by (rule rect_table')

lemma rect_L_matrix: "rect N N (L_matrix N Delta lam)"
  unfolding L_matrix_as_table by (rule rect_table')

lemma H_matrix_nth:
  "n \<le> N \<Longrightarrow> c \<le> n \<Longrightarrow> H_matrix N Delta h ! n ! c = h (real n * Delta) (real (n - c) * Delta)"
  unfolding H_matrix_as_table by (simp add: mult.commute)

lemma L_matrix_nth:
  "j < N \<Longrightarrow> k < N \<Longrightarrow>
   L_matrix N Delta lam ! j ! k = lam (real (N - k) * Delta) (real j * Delta) * Delta"
  unfolding L_matrix_as_table by (simp add: mult.commute)

lemma column_step_rect:
  assumes F: "rect (N + 1) (N + 1) F" and H: "rect (N + 1) (N + 1) H" and L: "rect N N L"
    and i: "i < N"
  shows "column_step N H L i F =
     Inr (table (N + 1) (N + 1)
       (\<lambda>n c. if c = i + 1 \<and> i + 1 \<le> n
          then H ! n ! (i + 1) + (\<Sum>j<i + 1. F ! n ! j * L ! (n - (i + 1)) ! (N - i - 1 + j))
          else F ! n ! c))"
proof -
  have d1: "min (N + 1 - (i + 1)) (N + 1 - (i + 1)) = N - i"
    and d2: "min (i + 1 - 0) (N + 1 - 0) = i + 1"
    and d3: "min (N - i - 0) (N - 0) = N - i"
    and d4: "min (N + 1 - (N - i - 1)) (N - (N - i - 1)) = i + 1"
    using i by auto
  have pos: "0 < N - i" using i by simp
  have PF: "slice2 (i + 1) (N + 1) 0 (i + 1) F = table (N - i) (i + 1) (\<lambda>n j. F ! (i + 1 + n) ! (0 + j))"
    unfolding slice2_table [OF F] d1 d2 ..
  have WL: "slice2 0 (N - i) (N - i - 1) (N + 1) L =
      table (N - i) (i + 1) (\<lambda>n j. L ! (0 + n) ! (N - i - 1 + j))"
    unfolding slice2_table [OF L] d3 d4 ..
  have CH: "column_slice (i + 1) (N + 1) (i + 1) H = map (\<lambda>n. H ! (i + 1 + n) ! (i + 1)) [0..<N - i]"
    unfolding column_slice_rect [OF H] d1 ..
  let ?v = "\<lambda>m. H ! (i + 1 + m) ! (i + 1) +
      (\<Sum>j<i + 1. F ! (i + 1 + m) ! (0 + j) * L ! (0 + m) ! (N - i - 1 + j))"
  have AS: "assign_column F (i + 1) (N + 1) (i + 1) (map ?v [0..<N - i]) =
      Inr (table (N + 1) (N + 1)
        (\<lambda>n c. if c = i + 1 \<and> i + 1 \<le> n \<and> n < N + 1 then ?v (n - (i + 1)) else F ! n ! c))"
    using assign_column_rect [OF F, of "i + 1" "i + 1" "N + 1" ?v] i unfolding d1 by simp
  have "column_step N H L i F =
      Inr (table (N + 1) (N + 1)
        (\<lambda>n c. if c = i + 1 \<and> i + 1 \<le> n \<and> n < N + 1 then ?v (n - (i + 1)) else F ! n ! c))"
    by (simp only: column_step_def PF WL np_mul_table [OF pos] CH np_sum_table
        sum.case np_add_maps AS)
  also have "table (N + 1) (N + 1)
        (\<lambda>n c. if c = i + 1 \<and> i + 1 \<le> n \<and> n < N + 1 then ?v (n - (i + 1)) else F ! n ! c) =
      table (N + 1) (N + 1)
       (\<lambda>n c. if c = i + 1 \<and> i + 1 \<le> n
          then H ! n ! (i + 1) + (\<Sum>j<i + 1. F ! n ! j * L ! (n - (i + 1)) ! (N - i - 1 + j))
          else F ! n ! c)"
    by (rule table_cong) auto
  finally show ?thesis .
qed

lemma column_loop_append:
  "column_loop N H L (js @ [i]) F =
     (case column_loop N H L js F of Inl e \<Rightarrow> Inl e | Inr F' \<Rightarrow> column_step N H L i F')"
  by (induction js arbitrary: F) (auto split: sum.splits)

lemma conv_reindex:
  fixes g :: "nat \<Rightarrow> real"
  shows "(\<Sum>j<i. g j * (lam (real (i - j) * Delta) tau * Delta)) =
     Delta * (\<Sum>k = 1..i. g (i - k) * lam (real k * Delta) tau)"
proof -
  have "(\<Sum>j<i. g j * (lam (real (i - j) * Delta) tau * Delta)) =
      (\<Sum>k = 1..i. g (i - k) * (lam (real k * Delta) tau * Delta))"
    by (rule sum.reindex_bij_witness [of _ "\<lambda>k. i - k" "\<lambda>j. i - j"]) auto
  also have "\<dots> = Delta * (\<Sum>k = 1..i. g (i - k) * lam (real k * Delta) tau)"
    by (simp add: sum_distrib_left mult.assoc mult.left_commute mult.commute)
  finally show ?thesis .
qed

lemma block_column_recurrence:
  assumes "n \<le> N" "i < n"
  shows "H_matrix N Delta h ! n ! (i + 1) +
     (\<Sum>j<i + 1. direct_recurrence Delta h lam n j *
        L_matrix N Delta lam ! (n - (i + 1)) ! (N - i - 1 + j)) =
     direct_recurrence Delta h lam n (i + 1)"
proof -
  have "(\<Sum>j<i + 1. direct_recurrence Delta h lam n j *
        L_matrix N Delta lam ! (n - (i + 1)) ! (N - i - 1 + j)) =
      (\<Sum>j<i + 1. direct_recurrence Delta h lam n j *
        (lam (real (i + 1 - j) * Delta) (real (n - (i + 1)) * Delta) * Delta))"
  proof (rule sum.cong [OF refl])
    fix j assume "j \<in> {..<i + 1}"
    then have j: "j < i + 1" by simp
    have "n - (i + 1) < N" "N - i - 1 + j < N" "N - (N - i - 1 + j) = i + 1 - j"
      using assms j by auto
    then show "direct_recurrence Delta h lam n j *
        L_matrix N Delta lam ! (n - (i + 1)) ! (N - i - 1 + j) =
      direct_recurrence Delta h lam n j *
        (lam (real (i + 1 - j) * Delta) (real (n - (i + 1)) * Delta) * Delta)"
      by (simp only: L_matrix_nth)
  qed
  moreover have "H_matrix N Delta h ! n ! (i + 1) = h (real n * Delta) (real (n - (i + 1)) * Delta)"
    using assms by (intro H_matrix_nth) auto
  ultimately show ?thesis
    unfolding conv_reindex by (subst (2) direct_recurrence.simps) simp
qed

lemma column_loop_upt:
  assumes F: "rect (N + 1) (N + 1) F"
    and col0: "\<And>n. n \<le> N \<Longrightarrow> F ! n ! 0 = direct_recurrence Delta h lam n 0"
  shows "m \<le> N \<Longrightarrow>
     column_loop N (H_matrix N Delta h) (L_matrix N Delta lam) [0..<m] F =
       Inr (table (N + 1) (N + 1)
         (\<lambda>n c. if 1 \<le> c \<and> c \<le> m \<and> c \<le> n then direct_recurrence Delta h lam n c
            else F ! n ! c))"
proof (induction m)
  case 0
  have "table (N + 1) (N + 1) (\<lambda>n c. if 1 \<le> c \<and> c \<le> 0 \<and> c \<le> n
      then direct_recurrence Delta h lam n c else F ! n ! c) = table (N + 1) (N + 1) (\<lambda>n c. F ! n ! c)"
    by (rule table_cong) auto
  then show ?case using rect_as_table [OF F] by simp
next
  case (Suc m)
  let ?Fm = "table (N + 1) (N + 1)
         (\<lambda>n c. if 1 \<le> c \<and> c \<le> m \<and> c \<le> n then direct_recurrence Delta h lam n c
            else F ! n ! c)"
  have m: "m < N" using Suc.prems by simp
  have IH: "column_loop N (H_matrix N Delta h) (L_matrix N Delta lam) [0..<m] F = Inr ?Fm"
    using Suc by simp
  have Fm: "?Fm ! n ! j = direct_recurrence Delta h lam n j" if "n \<le> N" "j \<le> m" "j \<le> n" for n j
    using that m col0 [of n] by (cases "j = 0") auto
  have "column_step N (H_matrix N Delta h) (L_matrix N Delta lam) m ?Fm =
     Inr (table (N + 1) (N + 1)
       (\<lambda>n c. if c = m + 1 \<and> m + 1 \<le> n
          then H_matrix N Delta h ! n ! (m + 1) +
            (\<Sum>j<m + 1. ?Fm ! n ! j * L_matrix N Delta lam ! (n - (m + 1)) ! (N - m - 1 + j))
          else ?Fm ! n ! c))"
    by (rule column_step_rect [OF rect_table' rect_H_matrix rect_L_matrix m])
  also have "table (N + 1) (N + 1)
       (\<lambda>n c. if c = m + 1 \<and> m + 1 \<le> n
          then H_matrix N Delta h ! n ! (m + 1) +
            (\<Sum>j<m + 1. ?Fm ! n ! j * L_matrix N Delta lam ! (n - (m + 1)) ! (N - m - 1 + j))
          else ?Fm ! n ! c) =
     table (N + 1) (N + 1)
         (\<lambda>n c. if 1 \<le> c \<and> c \<le> Suc m \<and> c \<le> n then direct_recurrence Delta h lam n c
            else F ! n ! c)"
  proof (rule table_cong)
    fix n c assume n: "n < N + 1" and c: "c < N + 1"
    show "(if c = m + 1 \<and> m + 1 \<le> n
          then H_matrix N Delta h ! n ! (m + 1) +
            (\<Sum>j<m + 1. ?Fm ! n ! j * L_matrix N Delta lam ! (n - (m + 1)) ! (N - m - 1 + j))
          else ?Fm ! n ! c) =
        (if 1 \<le> c \<and> c \<le> Suc m \<and> c \<le> n then direct_recurrence Delta h lam n c
            else F ! n ! c)"
    proof (cases "c = m + 1 \<and> m + 1 \<le> n")
      case True
      have "(\<Sum>j<m + 1. ?Fm ! n ! j * L_matrix N Delta lam ! (n - (m + 1)) ! (N - m - 1 + j)) =
          (\<Sum>j<m + 1. direct_recurrence Delta h lam n j *
             L_matrix N Delta lam ! (n - (m + 1)) ! (N - m - 1 + j))"
      proof (rule sum.cong [OF refl])
        fix j assume "j \<in> {..<m + 1}"
        then have "j \<le> m" "j \<le> n" using True by auto
        moreover have "n \<le> N" using n by simp
        ultimately have "?Fm ! n ! j = direct_recurrence Delta h lam n j" by (intro Fm)
        then show "?Fm ! n ! j * L_matrix N Delta lam ! (n - (m + 1)) ! (N - m - 1 + j) =
            direct_recurrence Delta h lam n j *
              L_matrix N Delta lam ! (n - (m + 1)) ! (N - m - 1 + j)"
          by simp
      qed
      moreover have "H_matrix N Delta h ! n ! (m + 1) +
          (\<Sum>j<m + 1. direct_recurrence Delta h lam n j *
             L_matrix N Delta lam ! (n - (m + 1)) ! (N - m - 1 + j)) =
          direct_recurrence Delta h lam n (m + 1)"
        using n True by (intro block_column_recurrence) auto
      ultimately show ?thesis using True by simp
    next
      case False
      then show ?thesis using n c by auto
    qed
  qed
  finally show ?case
    by (simp add: column_loop_append IH)
qed

lemma direct_recurrence_0:
  "direct_recurrence Delta h lam n 0 = h (real n * Delta) (real n * Delta)"
  by (simp add: direct_recurrence.simps)

lemma F_from_upt:
  assumes F0: "rect (N + 1) (N + 1) F0" and m: "m \<le> N"
  shows "F_from N Delta h lam [0..<m] F0 =
     Inr (table (N + 1) (N + 1)
       (\<lambda>n c. if c \<le> n \<and> c \<le> m then direct_recurrence Delta h lam n c else F0 ! n ! c))"
proof -
  let ?H = "H_matrix N Delta h"
  let ?F1 = "table (N + 1) (N + 1)
      (\<lambda>n c. if c = 0 \<and> 0 \<le> n \<and> n < N + 1 then ?H ! (0 + (n - 0)) ! 0 else F0 ! n ! c)"
  have d: "min (N + 1 - 0) (N + 1 - 0) = N + 1" by simp
  have CH: "column_slice 0 (length ?H) 0 ?H = map (\<lambda>n. ?H ! (0 + n) ! 0) [0..<N + 1]"
    unfolding rect_length [OF rect_H_matrix] column_slice_rect [OF rect_H_matrix] d ..
  have AS: "assign_column F0 0 (length F0) 0 (map (\<lambda>n. ?H ! (0 + n) ! 0) [0..<N + 1]) = Inr ?F1"
    using assign_column_rect [OF F0, of 0 0 "N + 1" "\<lambda>n. ?H ! (0 + n) ! 0"]
    unfolding rect_length [OF F0] d by simp
  have col0: "?F1 ! n ! 0 = direct_recurrence Delta h lam n 0" if "n \<le> N" for n
    using that by (simp add: H_matrix_nth direct_recurrence_0)
  have loop: "column_loop N ?H (L_matrix N Delta lam) [0..<m] ?F1 =
       Inr (table (N + 1) (N + 1)
         (\<lambda>n c. if 1 \<le> c \<and> c \<le> m \<and> c \<le> n then direct_recurrence Delta h lam n c
            else ?F1 ! n ! c))"
    by (rule column_loop_upt [OF rect_table' col0 m])
  have "table (N + 1) (N + 1)
         (\<lambda>n c. if 1 \<le> c \<and> c \<le> m \<and> c \<le> n then direct_recurrence Delta h lam n c
            else ?F1 ! n ! c) =
       table (N + 1) (N + 1)
         (\<lambda>n c. if c \<le> n \<and> c \<le> m then direct_recurrence Delta h lam n c else F0 ! n ! c)"
  proof (rule table_cong)
    fix n c assume n: "n < N + 1" and c: "c < N + 1"
    show "(if 1 \<le> c \<and> c \<le> m \<and> c \<le> n then direct_recurrence Delta h lam n c
            else ?F1 ! n ! c) =
          (if c \<le> n \<and> c \<le> m then direct_recurrence Delta h lam n c else F0 ! n ! c)"
    proof (cases "c = 0")
      case True
      then show ?thesis using col0 [of n] n by simp
    next
      case False
      then show ?thesis using n c by auto
    qed
  qed
  then show ?thesis
    unfolding F_from_def Let_def CH
    by (simp only: AS sum.case loop)
qed

lemma F_from_table:
  assumes F0: "rect (N + 1) (N + 1) F0"
  shows "F_from N Delta h lam (arange 0 N) F0 =
     Inr (table (N + 1) (N + 1)
       (\<lambda>n c. if c \<le> n then direct_recurrence Delta h lam n c else F0 ! n ! c))"
proof -
  have "table (N + 1) (N + 1)
       (\<lambda>n c. if c \<le> n \<and> c \<le> N then direct_recurrence Delta h lam n c else F0 ! n ! c) =
     table (N + 1) (N + 1)
       (\<lambda>n c. if c \<le> n then direct_recurrence Delta h lam n c else F0 ! n ! c)"
    by (rule table_cong) auto
  then show ?thesis
    unfolding arange_def F_from_upt [OF F0 order_refl] by simp
qed

lemma F_final_table:
  "F_final N Delta h lam =
     Inr (table (N + 1) (N + 1)
       (\<lambda>n c. if c \<le> n then direct_recurrence Delta h lam n c else 0))"
proof -
  have "table (N + 1) (N + 1)
       (\<lambda>n c. if c \<le> n then direct_recurrence Delta h lam n c else zeros (N + 1) (N + 1) ! n ! c) =
      table (N + 1) (N + 1)
       (\<lambda>n c. if c \<le> n then direct_recurrence Delta h lam n c else 0)"
    by (rule table_cong) (simp add: zeros_nth)
  then show ?thesis
    unfolding F_final_def F_from_table [OF rect_zeros] by simp
qed

lemma diagonal_table: "diagonal (table r r f) = map (\<lambda>n. f n n) [0..<r]"
proof -
  have "min (length (table r r f)) (ncols (table r r f)) = r"
    by (cases "r = 0") (simp_all add: ncols_table)
  then have "diagonal (table r r f) = map (\<lambda>n. table r r f ! n ! n) [0..<r]"
    by (simp add: diagonal_def)
  also have "\<dots> = map (\<lambda>n. f n n) [0..<r]"
    by (rule map_cong [OF refl]) simp
  finally show ?thesis .
qed

lemma algorithm2_recurrence:
  "algorithm2 N Delta h lam = Inr (map (\<lambda>n. direct_recurrence Delta h lam n n) [0..<N + 1])"
  unfolding algorithm2_def F_final_table
  by (simp only: sum.case diagonal_table order_refl if_True)

section \<open>The notebook as a whole\<close>

lemma direct_recurrence_zero_kernel:
  assumes "\<And>u tau. lam u tau = 0"
  shows "direct_recurrence Delta h lam n i = h (real n * Delta) (real (n - i) * Delta)"
  by (subst direct_recurrence.simps) (simp add: assms)

lemma nth_map_upt0: "n < m \<Longrightarrow> map f [0..<m] ! n = f n"
  by simp

lemma algorithm1_cell_nat:
  "0 \<le> N \<Longrightarrow> algorithm1_cell N Delta h lam = Inr (algorithm1 (nat N) Delta h lam)"
  by (simp add: algorithm1_cell_def np_zeros_def py_arange_def algorithm1_def fhat_final_def
      nat_add_distrib)

lemma np_tile_A_H:
  "0 \<le> N \<Longrightarrow>
   np_tile (py_arange 0 (N + 1)) (N + 1) = Inr (tile (arange 0 (nat N + 1)) (nat N + 1))"
  by (simp add: np_tile_def py_arange_def nat_add_distrib)

lemma np_tile_B_L:
  "0 \<le> N \<Longrightarrow>
   np_tile (rev (py_arange 1 (N + 1))) N = Inr (tile (rev (arange 1 (nat N + 1))) (nat N))"
  by (simp add: np_tile_def py_arange_def nat_add_distrib)

lemma algorithm2_cells_nat:
  "0 \<le> N \<Longrightarrow> algorithm2_cells N Delta h lam = algorithm2 (nat N) Delta h lam"
  by (simp only: algorithm2_cells_def np_tile_A_H np_tile_B_L sum.case)

lemma notebook_recurrence:
  "0 < N \<Longrightarrow>
   notebook T N h lam =
     Inr (map (\<lambda>n. direct_recurrence (T / real_of_int N) h lam n n) [0..<nat N + 1],
          map (\<lambda>n. direct_recurrence (T / real_of_int N) h lam n n) [0..<nat N + 1])"
  unfolding notebook_def py_truediv_def
  by (simp add: algorithm1_cell_nat algorithm2_cells_nat algorithm1_recurrence
      algorithm2_recurrence del: upt_Suc)


lemma map2_tables:
  "map2 (map2 f) (table r c a) (table r c b) = table r c (\<lambda>n i. f (a n i) (b n i))"
  unfolding table_def by (rule map2_table)

lemma sum_list_table: "map sum_list (table r c f) = map (\<lambda>n. \<Sum>i<c. f n i) [0..<r]"
  by (simp add: table_def sum_list_upt0 o_def)

lemma block_entry_recurrence:
  assumes "n \<le> N" "i < n"
  shows "direct_recurrence Delta h lam n (i + 1) =
     h (real n * Delta) (real (n - i - 1) * Delta) +
     (\<Sum>c = 0..i. direct_recurrence Delta h lam n c *
        (lam (real (i + 1 - c) * Delta) (real (n - i - 1) * Delta) * Delta))"
proof -
  have s: "{..<i + 1} = {0..i}" by auto
  have "(\<Sum>c = 0..i. direct_recurrence Delta h lam n c *
        (lam (real (i + 1 - c) * Delta) (real (n - i - 1) * Delta) * Delta)) =
      Delta * (\<Sum>k = 1..i + 1. direct_recurrence Delta h lam n (i + 1 - k) *
        lam (real k * Delta) (real (n - i - 1) * Delta))"
    using conv_reindex [where g = "direct_recurrence Delta h lam n" and i = "i + 1"
        and lam = lam and Delta = Delta and tau = "real (n - i - 1) * Delta"]
    unfolding s .
  moreover have "n - (i + 1) = n - i - 1" by simp
  ultimately show ?thesis
    by (subst direct_recurrence.simps) simp
qed

lemma window_slice:
  assumes "i < N"
  shows "slice2 0 (N - i) (N - i - 1) N (L_matrix N Delta lam) =
       table (N - i) (i + 1) (\<lambda>r j. L_matrix N Delta lam ! (0 + r) ! (N - i - 1 + j))"
    and "slice2 0 (N - i) (N - i - 1) (N + 1) (L_matrix N Delta lam) =
       table (N - i) (i + 1) (\<lambda>r j. L_matrix N Delta lam ! (0 + r) ! (N - i - 1 + j))"
proof -
  have d3: "min (N - i - 0) (N - 0) = N - i"
    and d4: "min (N + 1 - (N - i - 1)) (N - (N - i - 1)) = i + 1"
    and d5: "min (N - (N - i - 1)) (N - (N - i - 1)) = i + 1"
    using assms by auto
  show "slice2 0 (N - i) (N - i - 1) N (L_matrix N Delta lam) =
       table (N - i) (i + 1) (\<lambda>r j. L_matrix N Delta lam ! (0 + r) ! (N - i - 1 + j))"
    unfolding slice2_table [OF rect_L_matrix] d3 d5 ..
  show "slice2 0 (N - i) (N - i - 1) (N + 1) (L_matrix N Delta lam) =
       table (N - i) (i + 1) (\<lambda>r j. L_matrix N Delta lam ! (0 + r) ! (N - i - 1 + j))"
    unfolding slice2_table [OF rect_L_matrix] d3 d4 ..
qed

lemma block_column_update:
  fixes F :: matrix
  assumes F: "F = table (N + 1) (N + 1)
       (\<lambda>n c. if c \<le> n then direct_recurrence Delta h lam n c else 0)"
    and i: "i < N"
  shows "column_slice (i + 1) (N + 1) (i + 1) F =
        map2 (+) (column_slice (i + 1) (N + 1) (i + 1) (H_matrix N Delta h))
          (map sum_list (map2 (map2 (*)) (slice2 (i + 1) (N + 1) 0 (i + 1) F)
              (slice2 0 (N - i) (N - i - 1) N (L_matrix N Delta lam))))"
proof -
  have rF: "rect (N + 1) (N + 1) F" unfolding F by (rule rect_table')
  have d1: "min (N + 1 - (i + 1)) (N + 1 - (i + 1)) = N - i"
    and d2: "min (i + 1 - 0) (N + 1 - 0) = i + 1"
    using i by auto
  have PF: "slice2 (i + 1) (N + 1) 0 (i + 1) F = table (N - i) (i + 1) (\<lambda>r j. F ! (i + 1 + r) ! (0 + j))"
    unfolding slice2_table [OF rF] d1 d2 ..
  have CF: "column_slice (i + 1) (N + 1) (i + 1) F = map (\<lambda>r. F ! (i + 1 + r) ! (i + 1)) [0..<N - i]"
    unfolding column_slice_rect [OF rF] d1 ..
  have CH: "column_slice (i + 1) (N + 1) (i + 1) (H_matrix N Delta h) =
      map (\<lambda>r. H_matrix N Delta h ! (i + 1 + r) ! (i + 1)) [0..<N - i]"
    unfolding column_slice_rect [OF rect_H_matrix] d1 ..
  have "map (\<lambda>r. F ! (i + 1 + r) ! (i + 1)) [0..<N - i] =
      map (\<lambda>r. H_matrix N Delta h ! (i + 1 + r) ! (i + 1) +
        (\<Sum>j<i + 1. F ! (i + 1 + r) ! (0 + j) * L_matrix N Delta lam ! (0 + r) ! (N - i - 1 + j)))
        [0..<N - i]"
  proof (rule map_cong [OF refl])
    fix r assume "r \<in> set [0..<N - i]"
    then have r: "i + 1 + r \<le> N" "i < i + 1 + r" "i + 1 + r < N + 1" "i + 1 < N + 1"
      using i by auto
    have "(\<Sum>j<i + 1. F ! (i + 1 + r) ! (0 + j) * L_matrix N Delta lam ! (0 + r) ! (N - i - 1 + j)) =
        (\<Sum>j<i + 1. direct_recurrence Delta h lam (i + 1 + r) j *
           L_matrix N Delta lam ! (i + 1 + r - (i + 1)) ! (N - i - 1 + j))"
    proof (rule sum.cong [OF refl])
      fix j assume "j \<in> {..<i + 1}"
      then have "j < N + 1" "j \<le> i + 1 + r" using i by auto
      then have "F ! (i + 1 + r) ! (0 + j) = direct_recurrence Delta h lam (i + 1 + r) j"
        unfolding F using r(3) by simp
      then show "F ! (i + 1 + r) ! (0 + j) * L_matrix N Delta lam ! (0 + r) ! (N - i - 1 + j) =
          direct_recurrence Delta h lam (i + 1 + r) j *
            L_matrix N Delta lam ! (i + 1 + r - (i + 1)) ! (N - i - 1 + j)"
        by simp
    qed
    moreover have "F ! (i + 1 + r) ! (i + 1) = direct_recurrence Delta h lam (i + 1 + r) (i + 1)"
      unfolding F using r(3,4) by simp
    ultimately show "F ! (i + 1 + r) ! (i + 1) =
        H_matrix N Delta h ! (i + 1 + r) ! (i + 1) +
        (\<Sum>j<i + 1. F ! (i + 1 + r) ! (0 + j) * L_matrix N Delta lam ! (0 + r) ! (N - i - 1 + j))"
      using block_column_recurrence [OF r(1,2), of Delta h lam] by simp
  qed
  then show ?thesis
    unfolding CF CH PF window_slice(1) [OF i] map2_tables sum_list_table map2_same .
qed

section \<open>The claims\<close>

text \<open>
  C1.  For every horizon \<open>T > 0\<close>, step count \<open>N \<ge> 1\<close> and kernels \<open>h\<close> and \<open>\<lambda>\<close>, the result
  vector of Algorithm 2 equals the result vector of Algorithm 1, in exact arithmetic.
\<close>

theorem block_solver_equals_direct_solver:
  "0 < T \<Longrightarrow> 1 \<le> N \<Longrightarrow>
   algorithm2 N (T / real N) h lam = Inr (algorithm1 N (T / real N) h lam) \<and>
   (\<exists>f. notebook T (int N) h lam = Inr (f, f))"
proof
  show "algorithm2 N (T / real N) h lam = Inr (algorithm1 N (T / real N) h lam)"
    by (simp only: algorithm1_recurrence algorithm2_recurrence)
  assume "1 \<le> N"
  then have "0 < int N" by simp
  then show "\<exists>f. notebook T (int N) h lam = Inr (f, f)"
    by (simp only: notebook_recurrence) blast
qed

theorem block_solver_equals_direct_solver_witness:
  "(0::real) < 2 \<and> (1::nat) \<le> 2 \<and>
   algorithm1 2 (2 / real 2) (\<lambda>t tau. t) (\<lambda>u tau. 1) = [0, 2, 8] \<and>
   algorithm2 2 (2 / real 2) (\<lambda>t tau. t) (\<lambda>u tau. 1) = Inr [0, 2, 8]"
proof -
  have a: "algorithm1 2 (2 / real 2) (\<lambda>t tau. t) (\<lambda>u tau. 1) = [0, 2, 8]"
    unfolding algorithm1_recurrence
    by (simp add: upt_rec direct_recurrence.simps eval_nat_numeral sum.atLeast_Suc_atMost)
  show ?thesis
    using block_solver_equals_direct_solver [of 2 2 "\<lambda>t tau. t" "\<lambda>u tau. 1"] a by simp
qed

text \<open>
  C2.  Algorithm 1 computes, for every row \<open>n\<close> in \<open>0..N\<close>, the entry
  \<open>F[n][0] = h(n\<Delta>, n\<Delta>)\<close> and, for every \<open>i\<close> with \<open>1 \<le> i \<le> n\<close>, the entry
  \<open>F[n][i] = h(n\<Delta>, (n - i)\<Delta>) + \<Delta> \<Sum>\<^bsub>k = 1..i\<^esub> F[n][i - k] \<lambda>(k\<Delta>, (n - i)\<Delta>)\<close>; its result
  vector has \<open>N + 1\<close> entries and entry \<open>n\<close> is the diagonal entry \<open>F[n][n]\<close>.
\<close>

theorem direct_solver_rows:
  "n \<le> N \<Longrightarrow>
   fhat_final N Delta h lam ! n ! 0 = h (real n * Delta) (real n * Delta) \<and>
   (\<forall>i. 1 \<le> i \<and> i \<le> n \<longrightarrow>
      fhat_final N Delta h lam ! n ! i =
        h (real n * Delta) (real (n - i) * Delta) +
        Delta * (\<Sum>k = 1..i. fhat_final N Delta h lam ! n ! (i - k) *
                   lam (real k * Delta) (real (n - i) * Delta))) \<and>
   length (algorithm1 N Delta h lam) = N + 1 \<and>
   algorithm1 N Delta h lam ! n = fhat_final N Delta h lam ! n ! n"
proof (intro conjI allI impI)
  assume n: "n \<le> N"
  show "fhat_final N Delta h lam ! n ! 0 = h (real n * Delta) (real n * Delta)"
    using n by (simp add: fhat_final_entry direct_recurrence.simps [of _ _ _ _ 0])
  show "length (algorithm1 N Delta h lam) = N + 1"
    by (simp add: algorithm1_recurrence)
  have "n < N + 1" using n by simp
  then have "map (\<lambda>n. direct_recurrence Delta h lam n n) [0..<N + 1] ! n =
      direct_recurrence Delta h lam n n"
    by (simp del: upt_Suc)
  then show "algorithm1 N Delta h lam ! n = fhat_final N Delta h lam ! n ! n"
    using n by (simp add: algorithm1_recurrence fhat_final_entry del: upt_Suc)
next
  fix i
  assume n: "n \<le> N" and i: "1 \<le> i \<and> i \<le> n"
  have "(\<Sum>k = 1..i. fhat_final N Delta h lam ! n ! (i - k) *
            lam (real k * Delta) (real (n - i) * Delta)) =
        (\<Sum>k = 1..i. direct_recurrence Delta h lam n (i - k) *
            lam (real k * Delta) (real (n - i) * Delta))"
  proof (rule sum.cong [OF refl])
    fix k assume "k \<in> {1..i}"
    have "i - k \<le> n" "i - k \<le> N" using n i by auto
    then show "fhat_final N Delta h lam ! n ! (i - k) * lam (real k * Delta) (real (n - i) * Delta) =
        direct_recurrence Delta h lam n (i - k) * lam (real k * Delta) (real (n - i) * Delta)"
      using n by (simp only: fhat_final_entry if_True)
  qed
  moreover have "fhat_final N Delta h lam ! n ! i = direct_recurrence Delta h lam n i"
    using n i by (simp add: fhat_final_entry)
  ultimately show "fhat_final N Delta h lam ! n ! i =
        h (real n * Delta) (real (n - i) * Delta) +
        Delta * (\<Sum>k = 1..i. fhat_final N Delta h lam ! n ! (i - k) *
                   lam (real k * Delta) (real (n - i) * Delta))"
    using i by (simp add: direct_recurrence.simps [of _ _ _ _ i])
qed

theorem direct_solver_rows_witness:
  "(2::nat) \<le> 2 \<and>
   fhat_final 2 1 (\<lambda>t tau. t) (\<lambda>u tau. 1) ! 2 ! 0 = 2 \<and>
   fhat_final 2 1 (\<lambda>t tau. t) (\<lambda>u tau. 1) ! 2 ! 1 = 4 \<and>
   length (algorithm1 2 1 (\<lambda>t tau. t) (\<lambda>u tau. 1)) = 3"
proof -
  note t = direct_solver_rows [of 2 2 1 "\<lambda>t tau. t" "\<lambda>u tau. 1"]
  have a: "fhat_final 2 1 (\<lambda>t tau. t) (\<lambda>u tau. 1) ! 2 ! 0 = 2"
    using t by simp
  have "fhat_final 2 1 (\<lambda>t tau. t) (\<lambda>u tau. 1) ! 2 ! 1 =
      2 + 1 * (\<Sum>k = 1..1. fhat_final 2 1 (\<lambda>t tau. t) (\<lambda>u tau. 1) ! 2 ! (1 - k) * 1)"
    using t by auto
  then have b: "fhat_final 2 1 (\<lambda>t tau. t) (\<lambda>u tau. 1) ! 2 ! 1 = 4"
    using a by simp
  have c: "length (algorithm1 2 1 (\<lambda>t tau. t) (\<lambda>u tau. 1)) = 3"
    using t by simp
  show ?thesis using a b c by simp
qed

text \<open>
  C3.  Algorithm 2 sets column 0 of \<open>F\<close> to column 0 of \<open>H\<close> and, for every \<open>i\<close> in
  \<open>0..N - 1\<close>, computes the rows \<open>i + 1..N\<close> of column \<open>i + 1\<close> as
  \<open>F[i+1:, i+1] = H[i+1:, i+1] + rowwise_sum(F[i+1:, 0:i+1] \<odot> L[0:N-i, N-i-1:N])\<close>, where
  \<open>H[n][i] = h(n\<Delta>, (n - i)\<Delta>)\<close> for \<open>i \<le> n\<close> and \<open>L\<close> is an \<open>N \<times> N\<close> matrix whose window has
  the entry \<open>\<lambda>((i + 1 - c)\<Delta>, (n - i - 1)\<Delta>) \<Delta>\<close> in the row of \<open>n\<close> and the column \<open>c\<close> in
  \<open>0..i\<close>.  The row sum is the list sum of HOL, and entry by entry the update reads
  \<open>F[n][i+1] = h(n\<Delta>, (n - i - 1)\<Delta>) + \<Sum>\<^bsub>c = 0..i\<^esub> F[n][c] \<lambda>((i + 1 - c)\<Delta>, (n - i - 1)\<Delta>) \<Delta>\<close>.
  The notebook writes the window as \<^verbatim>\<open>L[0:N-i, N-i-1:N+1]\<close>, which is the same slice.
\<close>

theorem block_solver_columns:
  "\<exists>F. F_final N Delta h lam = Inr F \<and>
     rect (N + 1) (N + 1) F \<and>
     column_slice 0 (N + 1) 0 F = column_slice 0 (N + 1) 0 (H_matrix N Delta h) \<and>
     (\<forall>n. n \<le> N \<longrightarrow> F ! n ! 0 = h (real n * Delta) (real n * Delta)) \<and>
     (\<forall>i. i < N \<longrightarrow>
        column_slice (i + 1) (N + 1) (i + 1) F =
          map2 (+) (column_slice (i + 1) (N + 1) (i + 1) (H_matrix N Delta h))
            (map sum_list (map2 (map2 (*)) (slice2 (i + 1) (N + 1) 0 (i + 1) F)
               (slice2 0 (N - i) (N - i - 1) N (L_matrix N Delta lam))))) \<and>
     (\<forall>i n. i < N \<and> i + 1 \<le> n \<and> n \<le> N \<longrightarrow>
        F ! n ! (i + 1) =
          h (real n * Delta) (real (n - i - 1) * Delta) +
          (\<Sum>c = 0..i. F ! n ! c *
             (lam (real (i + 1 - c) * Delta) (real (n - i - 1) * Delta) * Delta))) \<and>
     (\<forall>i. i < N \<longrightarrow>
        slice2 0 (N - i) (N - i - 1) (N + 1) (L_matrix N Delta lam) =
        slice2 0 (N - i) (N - i - 1) N (L_matrix N Delta lam)) \<and>
     (\<forall>n i. i \<le> n \<and> n \<le> N \<longrightarrow>
        H_matrix N Delta h ! n ! i = h (real n * Delta) (real (n - i) * Delta)) \<and>
     rect N N (L_matrix N Delta lam) \<and>
     (\<forall>i n c. i < N \<and> i + 1 \<le> n \<and> n \<le> N \<and> c \<le> i \<longrightarrow>
        slice2 0 (N - i) (N - i - 1) N (L_matrix N Delta lam) ! (n - i - 1) ! c =
          lam (real (i + 1 - c) * Delta) (real (n - i - 1) * Delta) * Delta)"
proof -
  let ?F = "table (N + 1) (N + 1)
       (\<lambda>n c. if c \<le> n then direct_recurrence Delta h lam n c else (0::real))"
  have rF: "rect (N + 1) (N + 1) ?F" by (rule rect_table')
  have Fn: "?F ! n ! c = direct_recurrence Delta h lam n c" if "c \<le> n" "n \<le> N" for n c
    using that by simp
  have d: "min (N + 1 - 0) (N + 1 - 0) = N + 1" by simp
  have c0: "column_slice 0 (N + 1) 0 ?F = column_slice 0 (N + 1) 0 (H_matrix N Delta h)"
    unfolding column_slice_rect [OF rF] column_slice_rect [OF rect_H_matrix] d
    by (rule map_cong [OF refl]) (simp add: H_matrix_nth direct_recurrence_0 del: upt_Suc)
  have e0: "\<forall>n. n \<le> N \<longrightarrow> ?F ! n ! 0 = h (real n * Delta) (real n * Delta)"
    by (simp add: direct_recurrence_0)
  have cols: "\<forall>i. i < N \<longrightarrow>
        column_slice (i + 1) (N + 1) (i + 1) ?F =
          map2 (+) (column_slice (i + 1) (N + 1) (i + 1) (H_matrix N Delta h))
            (map sum_list (map2 (map2 (*)) (slice2 (i + 1) (N + 1) 0 (i + 1) ?F)
               (slice2 0 (N - i) (N - i - 1) N (L_matrix N Delta lam))))"
    using block_column_update [OF refl] by blast
  have ent: "\<forall>i n. i < N \<and> i + 1 \<le> n \<and> n \<le> N \<longrightarrow>
        ?F ! n ! (i + 1) =
          h (real n * Delta) (real (n - i - 1) * Delta) +
          (\<Sum>c = 0..i. ?F ! n ! c *
             (lam (real (i + 1 - c) * Delta) (real (n - i - 1) * Delta) * Delta))"
  proof (intro allI impI)
    fix i n assume a: "i < N \<and> i + 1 \<le> n \<and> n \<le> N"
    then have n: "n \<le> N" "i < n" "i + 1 \<le> n" by auto
    have "(\<Sum>c = 0..i. ?F ! n ! c *
             (lam (real (i + 1 - c) * Delta) (real (n - i - 1) * Delta) * Delta)) =
        (\<Sum>c = 0..i. direct_recurrence Delta h lam n c *
             (lam (real (i + 1 - c) * Delta) (real (n - i - 1) * Delta) * Delta))"
    proof (rule sum.cong [OF refl])
      fix c assume "c \<in> {0..i}"
      then have "c \<le> n" using n by auto
      then show "?F ! n ! c *
             (lam (real (i + 1 - c) * Delta) (real (n - i - 1) * Delta) * Delta) =
          direct_recurrence Delta h lam n c *
             (lam (real (i + 1 - c) * Delta) (real (n - i - 1) * Delta) * Delta)"
        by (simp only: Fn [OF _ n(1)])
    qed
    then show "?F ! n ! (i + 1) =
          h (real n * Delta) (real (n - i - 1) * Delta) +
          (\<Sum>c = 0..i. ?F ! n ! c *
             (lam (real (i + 1 - c) * Delta) (real (n - i - 1) * Delta) * Delta))"
      by (simp only: Fn [OF n(3,1)] block_entry_recurrence [OF n(1,2)])
  qed
  have win: "\<forall>i. i < N \<longrightarrow>
        slice2 0 (N - i) (N - i - 1) (N + 1) (L_matrix N Delta lam) =
        slice2 0 (N - i) (N - i - 1) N (L_matrix N Delta lam)"
    using window_slice [of _ N Delta lam] by simp
  have Hn: "\<forall>n i. i \<le> n \<and> n \<le> N \<longrightarrow>
        H_matrix N Delta h ! n ! i = h (real n * Delta) (real (n - i) * Delta)"
    by (simp add: H_matrix_nth)
  have Ln: "\<forall>i n c. i < N \<and> i + 1 \<le> n \<and> n \<le> N \<and> c \<le> i \<longrightarrow>
        slice2 0 (N - i) (N - i - 1) N (L_matrix N Delta lam) ! (n - i - 1) ! c =
          lam (real (i + 1 - c) * Delta) (real (n - i - 1) * Delta) * Delta"
  proof (intro allI impI)
    fix i n c assume a: "i < N \<and> i + 1 \<le> n \<and> n \<le> N \<and> c \<le> i"
    then have b: "n - i - 1 < N - i" "c < i + 1" "n - i - 1 < N" "N - i - 1 + c < N"
      "N - (N - i - 1 + c) = i + 1 - c"
      by auto
    have "slice2 0 (N - i) (N - i - 1) N (L_matrix N Delta lam) ! (n - i - 1) ! c =
        L_matrix N Delta lam ! (0 + (n - i - 1)) ! (N - i - 1 + c)"
      using a b(1,2) by (simp only: window_slice(1) nth_table)
    also have "\<dots> = lam (real (i + 1 - c) * Delta) (real (n - i - 1) * Delta) * Delta"
      using b(3,4,5) by (simp add: L_matrix_nth)
    finally show "slice2 0 (N - i) (N - i - 1) N (L_matrix N Delta lam) ! (n - i - 1) ! c =
          lam (real (i + 1 - c) * Delta) (real (n - i - 1) * Delta) * Delta" .
  qed
  show ?thesis
    unfolding F_final_table
    by (intro exI [of _ ?F] conjI refl rF c0 e0 cols ent win Hn rect_L_matrix Ln)
qed

theorem block_solver_columns_witness:
  "\<exists>F. F_final 2 1 (\<lambda>t tau. t * 10 + tau) (\<lambda>u tau. u * 10 + tau) = Inr F \<and>
     F ! 1 ! 0 = 11 \<and> F ! 1 ! 1 = 120 \<and>
     F ! 2 ! 0 = 22 \<and> F ! 2 ! 1 = 263 \<and> F ! 2 ! 2 = 3090"
proof -
  from block_solver_columns [of 2 1 "\<lambda>t tau. t * 10 + tau" "\<lambda>u tau. u * 10 + tau"]
  obtain F :: matrix where
    F: "F_final 2 1 (\<lambda>t tau. t * 10 + tau) (\<lambda>u tau. u * 10 + tau) = Inr F"
    and c0: "\<forall>n. n \<le> 2 \<longrightarrow> F ! n ! 0 = real n * 1 * 10 + real n * 1"
    and ent: "\<forall>i n. i < 2 \<and> i + 1 \<le> n \<and> n \<le> 2 \<longrightarrow>
        F ! n ! (i + 1) =
          real n * 1 * 10 + real (n - i - 1) * 1 +
          (\<Sum>c = 0..i. F ! n ! c *
             ((real (i + 1 - c) * 1 * 10 + real (n - i - 1) * 1) * 1))"
    by (elim exE conjE) (rule that, assumption+)
  have a: "F ! 1 ! 0 = 11" using c0 [rule_format, of 1] by simp
  have b: "F ! 2 ! 0 = 22" using c0 [rule_format, of 2] by simp
  have c: "F ! 1 ! 1 = 120" using ent [rule_format, of 0 1] a by simp
  have d: "F ! 2 ! 1 = 263" using ent [rule_format, of 0 2] b by simp
  have s: "{0..1::nat} = {0, 1}" by auto
  have "F ! 2 ! (1 + 1) = 20 + (F ! 2 ! 0 * 20 + F ! 2 ! 1 * 10)"
    using ent [rule_format, of 1 2] by (simp add: s)
  moreover have "(1::nat) + 1 = 2" by simp
  ultimately have "F ! 2 ! 2 = 20 + (F ! 2 ! 0 * 20 + F ! 2 ! 1 * 10)"
    by (simp only:)
  then have e: "F ! 2 ! 2 = 3090" by (simp only: b d)
  show ?thesis using F a b c d e by blast
qed

text \<open>
  C4, as amended.  If the hazard kernel \<open>\<lambda>\<close> is zero everywhere then, for every \<open>n\<close> in
  \<open>0..N\<close>, entry \<open>n\<close> of the result vector of both algorithms is \<open>h(n\<Delta>, 0)\<close>: the
  diagonal entry \<open>F[n][n]\<close> has the lag \<open>(n - n)\<Delta>\<close>.
\<close>

theorem degenerate_kernel:
  "\<forall>u tau. lam u tau = 0 \<Longrightarrow> n \<le> N \<Longrightarrow>
   algorithm1 N Delta h lam ! n = h (real n * Delta) 0 \<and>
   (\<exists>f_vec. algorithm2 N Delta h lam = Inr f_vec \<and> f_vec ! n = h (real n * Delta) 0)"
proof -
  assume z: "\<forall>u tau. lam u tau = 0" and "n \<le> N"
  then have n: "n < N + 1" by simp
  have "direct_recurrence Delta h lam n n = h (real n * Delta) 0"
    using z by (simp add: direct_recurrence_zero_kernel)
  then have "map (\<lambda>n. direct_recurrence Delta h lam n n) [0..<N + 1] ! n = h (real n * Delta) 0"
    by (simp only: nth_map_upt0 [OF n])
  then show ?thesis
    by (simp only: algorithm1_recurrence algorithm2_recurrence) blast
qed

theorem degenerate_kernel_witness:
  "(\<forall>u tau. (\<lambda>u tau. 0::real) u tau = 0) \<and> (1::nat) \<le> 1 \<and>
   algorithm1 1 1 (\<lambda>t tau. t + 5 * tau) (\<lambda>u tau. 0) ! 1 = 1"
  using degenerate_kernel [of "\<lambda>u tau. 0" 1 1 1 "\<lambda>t tau. t + 5 * tau"] by simp

text \<open>
  C4 as stated fails: with \<open>T = 1\<close>, \<open>N = 1\<close>, \<open>h(t, \<tau>) = \<tau>\<close> and \<open>\<lambda> = 0\<close> both algorithms
  return \<open>[0, 0]\<close>, but \<open>h(1 \<cdot> \<Delta>, 1 \<cdot> \<Delta>) = 1\<close>.
\<close>

theorem degenerate_kernel_counterexample:
  "notebook 1 1 (\<lambda>t tau. tau) (\<lambda>u tau. 0) = Inr ([0, 0], [0, 0]) \<and>
   algorithm1 1 (1 / real 1) (\<lambda>t tau. tau) (\<lambda>u tau. 0) ! 1 \<noteq>
     (\<lambda>t tau. tau) (real 1 * (1 / real 1)) (real 1 * (1 / real 1))"
  by (simp add: notebook_recurrence algorithm1_recurrence direct_recurrence_zero_kernel upt_rec)

text \<open>
  C5.  In Algorithm 1 the computation of row \<open>n\<close> reads and writes row \<open>n\<close> only, and the
  entries \<open>F[n][0..n]\<close> it computes are a function of \<open>n\<close>, \<open>\<Delta>\<close>, \<open>h\<close> and \<open>\<lambda>\<close> alone: two runs
  that start from arrays with the same row \<open>n\<close> and process the rows in any two orders
  compute the same row \<open>n\<close>.
\<close>

theorem row_independence:
  assumes "rect (N + 1) (N + 1) A" and "rect (N + 1) (N + 1) B" and "n \<le> N"
    and "A ! n = B ! n"
    and "distinct ns" and "set ns = {0..N}" and "distinct ms" and "set ms = {0..N}"
  shows "fill_rows Delta h lam ns A ! n = fill_rows Delta h lam ms B ! n \<and>
    fill_row Delta h lam n (arange 0 (n + 1)) A =
      A[n := row_fill Delta h lam n (arange 0 (n + 1)) (A ! n)] \<and>
    take (n + 1) (fill_rows Delta h lam ns A ! n) =
      map (direct_recurrence Delta h lam n) [0..<n + 1]"
proof (intro conjI)
  have lenA: "length A = N + 1" and lenB: "length B = N + 1"
    using assms(1,2) by (simp_all add: rect_length)
  have a: "fill_rows Delta h lam ns A ! n = row_fill Delta h lam n [0..<n + 1] (A ! n)"
    using assms(3,5,6) lenA by (subst fill_rows_nth) auto
  have b: "fill_rows Delta h lam ms B ! n = row_fill Delta h lam n [0..<n + 1] (B ! n)"
    using assms(3,7,8) lenB by (subst fill_rows_nth) auto
  show "fill_rows Delta h lam ns A ! n = fill_rows Delta h lam ms B ! n"
    using a b assms(4) by simp
  show "fill_row Delta h lam n (arange 0 (n + 1)) A =
      A[n := row_fill Delta h lam n (arange 0 (n + 1)) (A ! n)]"
    using assms(3) lenA by (intro fill_row_eq) simp
  have row: "length (A ! n) = N + 1"
    using assms(1,3) by (simp add: rect_nth)
  show "take (n + 1) (fill_rows Delta h lam ns A ! n) =
      map (direct_recurrence Delta h lam n) [0..<n + 1]"
  proof (rule nth_equalityI)
    show "length (take (n + 1) (fill_rows Delta h lam ns A ! n)) =
        length (map (direct_recurrence Delta h lam n) [0..<n + 1])"
      using row assms(3) by (simp add: a)
    fix i assume "i < length (take (n + 1) (fill_rows Delta h lam ns A ! n))"
    then have i: "i \<le> n" using row assms(3) by (simp add: a)
    then have "i \<le> N" using assms(3) by simp
    then have "fill_rows Delta h lam ns A ! n ! i = direct_recurrence Delta h lam n i"
      using fill_rows_entry [OF assms(1,5,6,3), of i Delta h lam] i by simp
    then show "take (n + 1) (fill_rows Delta h lam ns A ! n) ! i =
        map (direct_recurrence Delta h lam n) [0..<n + 1] ! i"
      using i by (simp del: upt_Suc)
  qed
qed

theorem row_independence_witness:
  "fill_rows 1 (\<lambda>t tau. t) (\<lambda>u tau. 1) [0, 1] [[5, 5], [0, 0]] ! 1 =
   fill_rows 1 (\<lambda>t tau. t) (\<lambda>u tau. 1) [1, 0] [[7, 7], [0, 0]] ! 1 \<and>
   take (1 + 1) (fill_rows 1 (\<lambda>t tau. t) (\<lambda>u tau. 1) [0, 1] [[5, 5], [0, 0]] ! 1) = [1, 2]"
proof -
  have s: "set [0, 1] = {0..1::nat}" "set [1, 0] = {0..1::nat}" by auto
  have r: "rect (1 + 1) (1 + 1) [[5, 5], [0, 0::real]]" "rect (1 + 1) (1 + 1) [[7, 7], [0, 0::real]]"
    by (simp_all add: rect_def)
  have d: "map (direct_recurrence 1 (\<lambda>t tau. t) (\<lambda>u tau. 1) 1) [0..<1 + 1] = [1, 2]"
    by (simp add: upt_rec direct_recurrence.simps)
  have o: "(1::nat) \<le> 1" "[[5, 5], [0, 0::real]] ! 1 = [[7, 7], [0, 0]] ! 1"
    "distinct [0, 1::nat]" "distinct [1, 0::nat]"
    by simp_all
  note t = row_independence [OF r o(1,2,3) s(1) o(4) s(2), of 1 "\<lambda>t tau. t" "\<lambda>u tau. 1"]
  from t have a: "fill_rows 1 (\<lambda>t tau. t) (\<lambda>u tau. 1) [0, 1] [[5, 5], [0, 0]] ! 1 =
      fill_rows 1 (\<lambda>t tau. t) (\<lambda>u tau. 1) [1, 0] [[7, 7], [0, 0]] ! 1"
    by (rule conjunct1)
  from t have "take (1 + 1) (fill_rows 1 (\<lambda>t tau. t) (\<lambda>u tau. 1) [0, 1] [[5, 5], [0, 0]] ! 1) =
      map (direct_recurrence 1 (\<lambda>t tau. t) (\<lambda>u tau. 1) 1) [0..<1 + 1]"
    by (rule conjunct2 [THEN conjunct2])
  then have b: "take (1 + 1) (fill_rows 1 (\<lambda>t tau. t) (\<lambda>u tau. 1) [0, 1] [[5, 5], [0, 0]] ! 1) = [1, 2]"
    by (simp only: d)
  show ?thesis using a b by (rule conjI)
qed

text \<open>
  C6, as amended.  Every non-positive step count \<open>N\<close> ends the run in a fatal error, without
  the pair of result vectors: \<open>N = 0\<close> raises \<^verbatim>\<open>ZeroDivisionError\<close> in \<^verbatim>\<open>Delta = T / N\<close>,
  before any computation starts; \<open>N \<le> - 2\<close> raises \<^verbatim>\<open>ValueError\<close> where Algorithm 1
  allocates its array, before any loop; \<open>N = - 1\<close> raises \<^verbatim>\<open>ValueError\<close> in \<^verbatim>\<open>np.tile\<close> of
  Algorithm 2, after Algorithm 1 has returned an empty result vector.  The horizon \<open>T\<close>
  is not checked.
\<close>

theorem configuration_errors:
  "(N \<le> 0 \<longrightarrow> (\<exists>e. notebook T N h lam = Inl e)) \<and>
   (N = 0 \<longrightarrow> py_truediv T N = Inl ZeroDivisionError \<and>
      notebook T N h lam = Inl ZeroDivisionError) \<and>
   (N \<le> - 2 \<longrightarrow> algorithm1_cell N (T / real_of_int N) h lam = Inl ValueError \<and>
      notebook T N h lam = Inl ValueError) \<and>
   (N = - 1 \<longrightarrow> algorithm1_cell N (T / real_of_int N) h lam = Inr [] \<and>
      algorithm2_cells N (T / real_of_int N) h lam = Inl ValueError \<and>
      notebook T N h lam = Inl ValueError)"
proof -
  have zero: "py_truediv T N = Inl ZeroDivisionError \<and> notebook T N h lam = Inl ZeroDivisionError"
    if "N = 0"
    using that by (simp add: notebook_def py_truediv_def)
  have low: "algorithm1_cell N (T / real_of_int N) h lam = Inl ValueError \<and>
      notebook T N h lam = Inl ValueError" if "N \<le> - 2"
  proof -
    have "np_zeros (N + 1) (N + 1) = Inl ValueError"
      using that by (simp add: np_zeros_def)
    then have "algorithm1_cell N (T / real_of_int N) h lam = Inl ValueError"
      by (simp add: algorithm1_cell_def)
    moreover have "py_truediv T N = Inr (T / real_of_int N)"
      using that by (simp add: py_truediv_def)
    ultimately show ?thesis by (simp add: notebook_def)
  qed
  have minus: "algorithm1_cell N (T / real_of_int N) h lam = Inr [] \<and>
      algorithm2_cells N (T / real_of_int N) h lam = Inl ValueError \<and>
      notebook T N h lam = Inl ValueError" if "N = - 1"
  proof -
    have "np_zeros (N + 1) (N + 1) = Inr []"
      using that by (simp add: np_zeros_def zeros_def)
    moreover have "py_arange 0 (N + 1) = []"
      using that by (simp add: py_arange_def arange_def)
    ultimately have a: "algorithm1_cell N (T / real_of_int N) h lam = Inr []"
      by (simp add: algorithm1_cell_def diagonal_def)
    have "np_tile (py_arange 0 (N + 1)) (N + 1) = Inr []"
      using that by (simp add: np_tile_def tile_def)
    moreover have "np_tile (rev (py_arange 1 (N + 1))) N = Inl ValueError"
      using that by (simp add: np_tile_def)
    ultimately have b: "algorithm2_cells N (T / real_of_int N) h lam = Inl ValueError"
      by (simp add: algorithm2_cells_def)
    have "py_truediv T N = Inr (T / real_of_int N)"
      using that by (simp add: py_truediv_def)
    then show ?thesis using a b by (simp add: notebook_def)
  qed
  have "N = 0 \<or> N = - 1 \<or> N \<le> - 2" if "N \<le> 0"
    using that by linarith
  then have "\<exists>e. notebook T N h lam = Inl e" if "N \<le> 0"
    using that zero low minus by blast
  then show ?thesis using zero low minus by blast
qed

theorem configuration_errors_witness:
  "notebook 100 0 (\<lambda>t tau. t) (\<lambda>u tau. 1) = Inl ZeroDivisionError \<and>
   algorithm1_cell (- 3) (100 / real_of_int (- 3)) (\<lambda>t tau. t) (\<lambda>u tau. 1) = Inl ValueError \<and>
   notebook 100 (- 3) (\<lambda>t tau. t) (\<lambda>u tau. 1) = Inl ValueError \<and>
   algorithm1_cell (- 1) (100 / real_of_int (- 1)) (\<lambda>t tau. t) (\<lambda>u tau. 1) = Inr [] \<and>
   notebook 100 (- 1) (\<lambda>t tau. t) (\<lambda>u tau. 1) = Inl ValueError"
  using configuration_errors [of 0 100 "\<lambda>t tau. t" "\<lambda>u tau. 1"]
    configuration_errors [of "- 3" 100 "\<lambda>t tau. t" "\<lambda>u tau. 1"]
    configuration_errors [of "- 1" 100 "\<lambda>t tau. t" "\<lambda>u tau. 1"]
  by simp

text \<open>
  C6 as stated fails twice.  With the non-positive horizon \<open>T = - 4\<close> and \<open>N = 4\<close> no error
  is raised and both result vectors are returned.  With the non-positive step count
  \<open>N = - 1\<close> the error comes only after Algorithm 1 has run and returned its (empty)
  result vector.
\<close>

theorem configuration_errors_counterexample:
  "notebook (- 4) 4 (\<lambda>t tau. 1) (\<lambda>u tau. 0) = Inr ([1, 1, 1, 1, 1], [1, 1, 1, 1, 1]) \<and>
   algorithm1_cell (- 1) (100 / real_of_int (- 1)) (\<lambda>t tau. 1) (\<lambda>u tau. 0) = Inr []"
  by (simp add: notebook_recurrence direct_recurrence_zero_kernel upt_rec
      algorithm1_cell_def np_zeros_def zeros_def py_arange_def arange_def diagonal_def)



text \<open>
  C8.  With \<open>N = 4\<close>, \<open>T = 4\<close>, \<open>h = 1\<close> and \<open>\<lambda> = 0\<close> both algorithms return
  \<open>[1, 1, 1, 1, 1]\<close>.
\<close>

theorem constant_scenario:
  "notebook 4 4 (\<lambda>t tau. 1) (\<lambda>u tau. 0) = Inr ([1, 1, 1, 1, 1], [1, 1, 1, 1, 1]) \<and>
   algorithm1 4 (4 / 4) (\<lambda>t tau. 1) (\<lambda>u tau. 0) = [1, 1, 1, 1, 1] \<and>
   algorithm2 4 (4 / 4) (\<lambda>t tau. 1) (\<lambda>u tau. 0) = Inr [1, 1, 1, 1, 1]"
  by (simp add: notebook_recurrence algorithm1_recurrence algorithm2_recurrence
      direct_recurrence_zero_kernel upt_rec)

text \<open>
  C9.  For every \<open>T > 0\<close>, \<open>N \<ge> 1\<close> and kernels \<open>h\<close> and \<open>\<lambda>\<close>, entry 0 of the result vector
  of both algorithms is \<open>h(0, 0)\<close>.
\<close>

theorem boundary_value:
  "0 < T \<Longrightarrow> 1 \<le> N \<Longrightarrow>
   algorithm1 N (T / real N) h lam ! 0 = h 0 0 \<and>
   (\<exists>f_vec. algorithm2 N (T / real N) h lam = Inr f_vec \<and> f_vec ! 0 = h 0 0)"
proof -
  have "map (\<lambda>n. direct_recurrence (T / real N) h lam n n) [0..<N + 1] ! 0 = h 0 0"
    by (simp only: nth_map_upt0 [of 0 "N + 1"] direct_recurrence_0) simp
  then show ?thesis
    by (simp only: algorithm1_recurrence algorithm2_recurrence) blast
qed

theorem boundary_value_witness:
  "(0::real) < 100 \<and> (1::nat) \<le> 500 \<and>
   algorithm1 500 (100 / real 500) (\<lambda>t tau. 7 + t + tau) (\<lambda>u tau. u * tau) ! 0 = 7"
  using boundary_value [of 100 500 "\<lambda>t tau. 7 + t + tau" "\<lambda>u tau. u * tau"] by simp

text \<open>
  C10.  After either algorithm every entry strictly above the diagonal of its working
  array still holds its initial value, which is 0, and the result vector does not depend
  on those entries: started from an array that differs from zeros above the diagonal
  only, each algorithm leaves those entries as they were and returns the same result
  vector.
\<close>

theorem upper_triangle_frame:
  assumes "n < i" and "i \<le> N" and "rect (N + 1) (N + 1) A"
    and "\<forall>m j. j \<le> m \<and> m \<le> N \<longrightarrow> A ! m ! j = 0"
  shows "fhat_final N Delta h lam ! n ! i = 0 \<and>
    (\<exists>F. F_final N Delta h lam = Inr F \<and> F ! n ! i = 0) \<and>
    fill_rows Delta h lam (arange 0 (N + 1)) A ! n ! i = A ! n ! i \<and>
    diagonal (fill_rows Delta h lam (arange 0 (N + 1)) A) = algorithm1 N Delta h lam \<and>
    (\<exists>F. F_from N Delta h lam (arange 0 N) A = Inr F \<and> F ! n ! i = A ! n ! i \<and>
       Inr (diagonal F) = algorithm2 N Delta h lam)"
proof (intro conjI)
  have n: "n \<le> N" "n < N + 1" and i: "i < N + 1" and ni: "\<not> i \<le> n"
    using assms(1,2) by auto
  show "fhat_final N Delta h lam ! n ! i = 0"
    using n(1) assms(2) ni by (simp add: fhat_final_entry)
  show "\<exists>F. F_final N Delta h lam = Inr F \<and> F ! n ! i = 0"
    unfolding F_final_table using n(2) i ni by (simp del: upt_Suc)
  have rng: "distinct [0..<N + 1]" "set [0..<N + 1] = {0..N}" by auto
  show "fill_rows Delta h lam (arange 0 (N + 1)) A ! n ! i = A ! n ! i"
    unfolding arange_def
    using fill_rows_entry [OF assms(3) rng n(1) assms(2), of Delta h lam] ni by simp
  show "diagonal (fill_rows Delta h lam (arange 0 (N + 1)) A) = algorithm1 N Delta h lam"
    unfolding arange_def algorithm1_recurrence
    by (rule diagonal_fill_rows [OF assms(3) rng])
  show "\<exists>F. F_from N Delta h lam (arange 0 N) A = Inr F \<and> F ! n ! i = A ! n ! i \<and>
       Inr (diagonal F) = algorithm2 N Delta h lam"
    unfolding F_from_table [OF assms(3)] algorithm2_recurrence
    using n(2) i ni by (simp add: diagonal_table del: upt_Suc)
qed

theorem upper_triangle_frame_witness:
  "fhat_final 1 1 (\<lambda>t tau. t) (\<lambda>u tau. 1) ! 0 ! 1 = 0 \<and>
   fill_rows 1 (\<lambda>t tau. t) (\<lambda>u tau. 1) (arange 0 (1 + 1)) [[0, 9], [0, 0]] ! 0 ! 1 = 9 \<and>
   diagonal (fill_rows 1 (\<lambda>t tau. t) (\<lambda>u tau. 1) (arange 0 (1 + 1)) [[0, 9], [0, 0]]) =
     algorithm1 1 1 (\<lambda>t tau. t) (\<lambda>u tau. 1)"
proof -
  have r: "rect (1 + 1) (1 + 1) [[0, 9], [0, 0::real]]"
    by (simp add: rect_def)
  have z: "\<forall>m j. j \<le> m \<and> m \<le> 1 \<longrightarrow> [[0, 9], [0, 0::real]] ! m ! j = 0"
    by (auto simp: nth_Cons' le_Suc_eq)
  have o: "(0::nat) < 1" "(1::nat) \<le> 1" by simp_all
  show ?thesis
    using upper_triangle_frame [OF o r z, of 1 "\<lambda>t tau. t" "\<lambda>u tau. 1"] by simp
qed

end
